theory Spec2Isabelle
  imports
    Complex_Main
    "HOL-Library.Word"
    "HOL-Library.Char_ord"
    "HOL-Library.List_Lexorder"
    "HOL-Library.Multiset"
    "HOL-Library.Sublist"
begin

section \<open>The document chat service of \<^verbatim>\<open>app.py\<close>\<close>

text \<open>
  The Flask application of \<^verbatim>\<open>src/app.py\<close> as HOL functions. Python strings are
  \<^typ>\<open>string\<close>, file contents are lists of bytes, an exception is a value of
  \<open>exn\<close> on the left of a sum, and everything a handler changes (the files on disk, the
  manifest, the global \<^verbatim>\<open>rag\<close>, the vector snapshot) is a field of one state record
  that the handler takes and returns. What the handlers print is left out.
\<close>

subsection \<open>Python values the handlers use\<close>

type_synonym byte = "8 word"
type_synonym bytes = "byte list"

text \<open>
  Exceptions. Only classes below Python's \<^verbatim>\<open>Exception\<close> are modelled (what
  \<^verbatim>\<open>except Exception\<close> catches); \<open>HTTPException c\<close> is werkzeug's, which Flask answers
  with status \<open>c\<close>, every other one ends a request with status 500.
\<close>

datatype exn =
    OSError string
  | AttributeError string
  | ValueError string
  | OverflowError string
  | MemoryError
  | HTTPException nat
  | Exception string

text \<open>\<^verbatim>\<open>posixpath.join(a, b)\<close> for two components.\<close>

definition os_path_join :: "string \<Rightarrow> string \<Rightarrow> string" where
  "os_path_join a b =
     (if b \<noteq> [] \<and> hd b = CHR ''/'' then b
      else if a = [] \<or> last a = CHR ''/'' then a @ b
      else a @ ''/'' @ b)"

text \<open>\<^verbatim>\<open>str.rfind\<close> of one character: the last index holding it, or \<open>-1\<close>.\<close>

definition rfind :: "char \<Rightarrow> string \<Rightarrow> int" where
  "rfind c p =
     (case filter (\<lambda>i. p ! i = c) (rev [0..<length p]) of
        [] \<Rightarrow> - 1
      | i # _ \<Rightarrow> int i)"

text \<open>
  \<^verbatim>\<open>posixpath.splitext\<close>: the extension starts at the last dot, unless that dot is
  before the last separator or only dots stand between the separator and it.
\<close>

definition os_path_splitext :: "string \<Rightarrow> string \<times> string" where
  "os_path_splitext p =
     (let sepIndex = rfind CHR ''/'' p;
          dotIndex = rfind CHR ''.'' p
      in if dotIndex > sepIndex
            \<and> list_ex (\<lambda>i. p ! i \<noteq> CHR ''.'') [nat (sepIndex + 1)..<nat dotIndex]
         then (take (nat dotIndex) p, drop (nat dotIndex) p)
         else (p, []))"

text \<open>\<^verbatim>\<open>sep.join(parts)\<close>.\<close>

fun str_join :: "string \<Rightarrow> string list \<Rightarrow> string" where
  "str_join sep [] = []"
| "str_join sep [x] = x"
| "str_join sep (x # y # ys) = x @ sep @ str_join sep (y # ys)"

text \<open>
  \<^verbatim>\<open>str.strip()\<close>: the characters Python counts as white space, among the 256 a
  \<^typ>\<open>char\<close> can hold.
\<close>

definition is_space :: "char \<Rightarrow> bool" where
  "is_space c =
     (let n = (of_char c :: nat)
      in (9 \<le> n \<and> n \<le> 13) \<or> (28 \<le> n \<and> n \<le> 32) \<or> n = 133 \<or> n = 160)"

definition str_strip :: "string \<Rightarrow> string" where
  "str_strip s = rev (dropWhile is_space (rev (dropWhile is_space s)))"

subsection \<open>\<^verbatim>\<open>compute_file_hash\<close>\<close>

text \<open>
  \<^verbatim>\<open>hashlib\<close>'s hash object is a parameter: a fresh object, \<^verbatim>\<open>update\<close> and
  \<^verbatim>\<open>hexdigest\<close>.
\<close>

record 'h hasher =
  h_new :: "'h"
  h_update :: "'h \<Rightarrow> bytes \<Rightarrow> 'h"
  h_hexdigest :: "'h \<Rightarrow> string"

text \<open>
  \<^verbatim>\<open>f.read(n)\<close> on a binary file whose unread part is \<open>rest\<close>. What a read that
  succeeds returns: the bytes read and what is left; \<open>-1\<close> reads to the end of the file.
\<close>

definition read_result :: "int \<Rightarrow> bytes \<Rightarrow> bytes \<times> bytes" where
  "read_result n rest =
     (if n < 0 then (rest, []) else (take (nat n) rest, drop (nat n) rest))"

text \<open>
  The largest size a \<^verbatim>\<open>bytes\<close> object can have in a 64-bit CPython: its header takes
  33 of the \<open>2 ^ 63 - 1\<close> bytes an object can have.
\<close>

definition max_bytes_size :: int where
  "max_bytes_size = 2 ^ 63 - 34"

text \<open>
  The read itself. A size below \<open>-1\<close> is refused and one that no \<^verbatim>\<open>bytes\<close> object can
  have overflows. The result is allocated before anything is read, \<open>n\<close> bytes of it (for
  \<open>-1\<close>, as many as the file has left), and that fails when the process cannot get so
  many: \<open>avail\<close> is the most it can get.
\<close>

definition f_read :: "int \<Rightarrow> int \<Rightarrow> bytes \<Rightarrow> exn + bytes \<times> bytes" where
  "f_read avail n rest =
     (if n < - 1 then Inl (ValueError ''read length must be non-negative or -1'')
      else if max_bytes_size < n then Inl (OverflowError ''too large for a bytes object'')
      else (let wanted = (if n = - 1 then int (length rest) else n)
            in if 0 < wanted \<and> avail < wanted then Inl MemoryError
               else Inr (read_result n rest)))"

text \<open>
  The \<^verbatim>\<open>while True\<close> loop: it leaves at the first empty chunk, or with the exception of
  a read.
\<close>

function read_loop :: "'h hasher \<Rightarrow> int \<Rightarrow> int \<Rightarrow> bytes \<Rightarrow> 'h \<Rightarrow> exn + 'h" where
  "read_loop H avail chunk_size rest h =
     (case f_read avail chunk_size rest of
        Inl e \<Rightarrow> Inl e
      | Inr (chunk, unread) \<Rightarrow>
          if chunk = [] then Inr h
          else read_loop H avail chunk_size unread (h_update H h chunk))"
  by pat_completeness auto
termination
  by (relation "measure (\<lambda>(H, avail, n, rest, h). length rest)")
     (auto simp: f_read_def read_result_def Let_def split: if_splits)

declare read_loop.simps [simp del]

text \<open>
  The files on disk: a path holds a regular file's bytes or nothing, and two paths are
  the same file when they are the same string. That is how the file system sees the
  paths the handlers build, a folder joined with a name without separators, which is
  what \<^verbatim>\<open>secure_filename\<close> returns. \<^verbatim>\<open>open(path, "rb")\<close> of a missing file raises.
\<close>

type_synonym filesystem = "string \<rightharpoonup> bytes"

definition compute_file_hash ::
  "'h hasher \<Rightarrow> int \<Rightarrow> filesystem \<Rightarrow> string \<Rightarrow> int \<Rightarrow> exn + string" where
  "compute_file_hash H avail files path chunk_size =
     (case files path of
        None \<Rightarrow> Inl (OSError ''FileNotFoundError'')
      | Some content \<Rightarrow>
          (case read_loop H avail chunk_size content (h_new H) of
             Inl e \<Rightarrow> Inl e
           | Inr h \<Rightarrow> Inr (h_hexdigest H h)))"

text \<open>The default of the parameter \<^verbatim>\<open>chunk_size\<close>.\<close>

definition default_chunk_size :: int where
  "default_chunk_size = 8192"

subsection \<open>\<^verbatim>\<open>extract_text_from_pdf\<close>\<close>

text \<open>
  \<^verbatim>\<open>PyPDF2\<close> is a parameter. \<^verbatim>\<open>page.extract_text()\<close> raises, returns
  \<^verbatim>\<open>None\<close> or returns a string; iterating \<^verbatim>\<open>reader.pages\<close> yields pages until it
  ends or raises.
\<close>

type_synonym page = "exn + string option"

datatype pages = NoMorePages | NextPage page pages | PagesRaise exn

text \<open>
  The \<^verbatim>\<open>for page in reader.pages\<close> loop, with the inner \<^verbatim>\<open>try\<close>: it returns the
  exception that ended it, if any, and \<^verbatim>\<open>text_parts\<close> as it stands then.
\<close>

fun extract_pages :: "pages \<Rightarrow> string list \<Rightarrow> (exn + unit) \<times> string list" where
  "extract_pages NoMorePages text_parts = (Inr (), text_parts)"
| "extract_pages (PagesRaise e) text_parts = (Inl e, text_parts)"
| "extract_pages (NextPage page rest) text_parts =
     (let txt = (case page of
                   Inl e \<Rightarrow> []
                 | Inr None \<Rightarrow> []
                 | Inr (Some t) \<Rightarrow> t)
      in extract_pages rest (text_parts @ [txt]))"

text \<open>The body of the outer \<^verbatim>\<open>try\<close>: opening the reader, then the loop.\<close>

definition read_pdf ::
  "(bytes \<Rightarrow> exn + pages) \<Rightarrow> filesystem \<Rightarrow> string \<Rightarrow> (exn + unit) \<times> string list" where
  "read_pdf PdfReader files path =
     (case files path of
        None \<Rightarrow> (Inl (OSError ''FileNotFoundError''), [])
      | Some content \<Rightarrow>
          (case PdfReader content of
             Inl e \<Rightarrow> (Inl e, [])
           | Inr reader_pages \<Rightarrow> extract_pages reader_pages []))"

definition extract_text_from_pdf ::
  "(bytes \<Rightarrow> exn + pages) \<Rightarrow> filesystem \<Rightarrow> string \<Rightarrow> exn + string" where
  "extract_text_from_pdf PdfReader files path =
     (let text_parts = (case read_pdf PdfReader files path of
                          (Inl e, parts) \<Rightarrow> parts
                        | (Inr u, parts) \<Rightarrow> parts)
      in Inr (str_strip (str_join [CHR 0x0A, CHR 0x0A] text_parts)))"

subsection \<open>The state of the service\<close>

text \<open>
  A manifest record is a Python dict with string values, in insertion order.
  \<^verbatim>\<open>processed_index.json\<close> is held by what \<^verbatim>\<open>json.load\<close> makes of it: it raises, or
  it gives the list of records that \<^verbatim>\<open>save_processed_index\<close> wrote. Other JSON
  documents are not values of this type.
\<close>

type_synonym py_dict = "(string \<times> string) list"

definition dict_get :: "py_dict \<Rightarrow> string \<Rightarrow> string option" where
  "dict_get d k = map_of d k"

datatype manifest_file = Unparseable | Records "py_dict list"

text \<open>
  Modelled from the spec: the vector store of \<^verbatim>\<open>src/search.py\<close> is not among the sources.
  It is ``an append-only collection of (vector, metadata) pairs'', absent (\<open>None\<close>) until
  the first \<^verbatim>\<open>add\<close> creates it; the vectors are of a type \<open>'v\<close> left open.
\<close>

type_synonym 'v entries = "('v \<times> py_dict) list"

record 'v rag_search =
  vs_index :: "'v entries option"

text \<open>The calls a handler makes into the retrieval code, in order.\<close>

datatype call =
    NewRAGSearch
  | NewEmbeddingPipeline
  | ChunkDocuments
  | EmbedChunks
  | AddEmbeddings
  | SaveVectorstore
  | SearchAndSummarize

record 'v state =
  files :: filesystem
  manifest :: manifest_file
  rag :: "'v rag_search option"
  snapshot :: "'v entries option"
  calls :: "call list"

definition UPLOAD_FOLDER :: string where
  "UPLOAD_FOLDER = ''data''"

definition PROCESSED_FOLDER :: string where
  "PROCESSED_FOLDER = ''processed_data''"

definition PROCESSED_INDEX :: string where
  "PROCESSED_INDEX = os_path_join PROCESSED_FOLDER ''processed_index.json''"

text \<open>
  \<^verbatim>\<open>SimpleDoc\<close>, and the objects \<^verbatim>\<open>chunk_documents\<close> returns, of which the handler
  reads \<^verbatim>\<open>page_content\<close>.
\<close>

record simple_doc =
  page_content :: string
  metadata :: py_dict

text \<open>A JSON value, as \<^verbatim>\<open>request.json\<close> gives it, and Python's truth value of it.\<close>

datatype jvalue =
    JNull
  | JBool bool
  | JNum real
  | JStr string
  | JArr "jvalue list"
  | JObj "(string \<times> jvalue) list"

fun truthy :: "jvalue \<Rightarrow> bool" where
  "truthy JNull = False"
| "truthy (JBool b) = b"
| "truthy (JNum x) = (x \<noteq> 0)"
| "truthy (JStr s) = (s \<noteq> [])"
| "truthy (JArr xs) = (xs \<noteq> [])"
| "truthy (JObj kvs) = (kvs \<noteq> [])"

text \<open>
  What the handlers call and this file does not define. \<^verbatim>\<open>EmbeddingPipeline\<close>,
  \<^verbatim>\<open>RAGSearch\<close> and its \<^verbatim>\<open>search_and_summarize\<close> are code of the repository that
  is not among the sources; like the libraries they are parameters, and each may raise.
  \<open>RAGSearch\<close> gets the vector snapshot on disk, which it reloads. Of werkzeug's
  \<^verbatim>\<open>secure_filename\<close> the properties use that the name it returns may be empty, is as
  long as it likes and holds no separator.
\<close>

record ('h, 'v) libs =
  hashlib :: "'h hasher"
  secure_filename :: "string \<Rightarrow> string"
  PdfReader :: "bytes \<Rightarrow> exn + pages"
  EmbeddingPipeline :: "string \<Rightarrow> exn + unit"
  chunk_documents :: "simple_doc list \<Rightarrow> exn + simple_doc list"
  embed_chunks :: "simple_doc list \<Rightarrow> exn + 'v list"
  RAGSearch :: "'v entries option \<Rightarrow> exn + 'v rag_search"
  search_and_summarize :: "'v rag_search \<Rightarrow> jvalue \<Rightarrow> exn + string"

text \<open>The two readings of the clock one upload makes (lines 148 and 158).\<close>

record clock =
  strftime_now :: string
  isoformat_now :: string

text \<open>An uploaded file, and \<^verbatim>\<open>request.files\<close>.\<close>

record file_storage =
  filename :: string
  stream :: bytes

type_synonym upload_request = "string \<rightharpoonup> file_storage"

text \<open>A response: the status and the JSON body.\<close>

datatype body =
    ErrorBody string
  | MessageBody string
  | MessageFileBody string py_dict
  | ProcessedBody "py_dict list"
  | ResponseBody string
  | Unhandled exn

type_synonym response = "nat \<times> body"

text \<open>What Flask answers when a handler raises.\<close>

definition server_error :: "exn \<Rightarrow> response" where
  "server_error e =
     (case e of HTTPException c \<Rightarrow> (c, Unhandled e) | _ \<Rightarrow> (500, Unhandled e))"

subsection \<open>Files\<close>

text \<open>The last component of a path, \<^verbatim>\<open>posixpath.basename\<close>.\<close>

definition basename :: "string \<Rightarrow> string" where
  "basename p = rev (takeWhile (\<lambda>c. c \<noteq> CHR ''/'') (rev p))"

text \<open>
  Why a path cannot be that of a regular file (Linux): it is empty; it names a
  directory, ending in a separator (\<^verbatim>\<open>os.path.join("data", "")\<close> is the folder itself)
  or in \<^verbatim>\<open>.\<close> or \<^verbatim>\<open>..\<close>; or its last component is longer than the 255 bytes a file
  name can have.
\<close>

definition path_error :: "string \<Rightarrow> exn option" where
  "path_error p =
     (if p = [] then Some (OSError ''FileNotFoundError'')
      else if basename p = [] \<or> basename p = ''.'' \<or> basename p = ''..''
        then Some (OSError ''IsADirectoryError'')
      else if 255 < length (basename p) then Some (OSError ''File name too long'')
      else None)"

text \<open>
  \<^verbatim>\<open>file.save(path)\<close> opens \<open>path\<close> for writing, which raises for such a path; otherwise
  it writes the upload there, over any file already at the path.
\<close>

definition file_save :: "file_storage \<Rightarrow> string \<Rightarrow> 'v state \<Rightarrow> exn + 'v state" where
  "file_save file path s =
     (case path_error path of
        Some e \<Rightarrow> Inl e
      | None \<Rightarrow> Inr (s\<lparr>files := (files s)(path \<mapsto> stream file)\<rparr>))"

text \<open>\<^verbatim>\<open>os.remove(path)\<close> inside \<^verbatim>\<open>try ... except Exception: pass\<close>.\<close>

definition os_remove_quiet :: "string \<Rightarrow> 'v state \<Rightarrow> 'v state" where
  "os_remove_quiet path s = s\<lparr>files := (files s)(path := None)\<rparr>"

text \<open>
  The manifest's file is kept in the field \<open>manifest\<close> and not in \<open>files\<close>; it exists
  from the start of the process on (lines 21 to 23). No upload is saved or moved onto
  it: a temporary path is under \<^verbatim>\<open>data\<close>, and a destination that exists gets a time
  stamp before its extension.
\<close>

definition os_path_exists :: "'v state \<Rightarrow> string \<Rightarrow> bool" where
  "os_path_exists s path = (path = PROCESSED_INDEX \<or> files s path \<noteq> None)"

text \<open>
  \<^verbatim>\<open>os.rename\<close> on POSIX: it raises when there is no file at \<open>src\<close> or \<open>dst\<close> cannot be
  a file's path; a file already at \<open>dst\<close> is replaced.
\<close>

definition os_rename :: "string \<Rightarrow> string \<Rightarrow> 'v state \<Rightarrow> exn + 'v state" where
  "os_rename src dst s =
     (case files s src of
        None \<Rightarrow> Inl (OSError ''FileNotFoundError'')
      | Some content \<Rightarrow>
          (case path_error dst of
             Some e \<Rightarrow> Inl e
           | None \<Rightarrow> Inr (s\<lparr>files := ((files s)(src := None))(dst \<mapsto> content)\<rparr>)))"

subsection \<open>The manifest\<close>

definition load_processed_index :: "'v state \<Rightarrow> py_dict list" where
  "load_processed_index s =
     (case manifest s of
        Records index_list \<Rightarrow> index_list
      | Unparseable \<Rightarrow> [])"

definition save_processed_index :: "py_dict list \<Rightarrow> 'v state \<Rightarrow> 'v state" where
  "save_processed_index index_list s = s\<lparr>manifest := Records index_list\<rparr>"

text \<open>
  The scan of lines 101 and 102: whether some record's \<^verbatim>\<open>"hash"\<close> is the upload's.
\<close>

fun hash_seen :: "py_dict list \<Rightarrow> string \<Rightarrow> bool" where
  "hash_seen [] file_hash = False"
| "hash_seen (rec # rest) file_hash =
     (if dict_get rec ''hash'' = Some file_hash then True else hash_seen rest file_hash)"

subsection \<open>The retrieval state\<close>

definition log_call :: "call \<Rightarrow> 'v state \<Rightarrow> 'v state" where
  "log_call c s = s\<lparr>calls := calls s @ [c]\<rparr>"

definition get_rag :: "('h, 'v) libs \<Rightarrow> 'v state \<Rightarrow> (exn + 'v rag_search) \<times> 'v state" where
  "get_rag L s =
     (case rag s of
        Some r \<Rightarrow> (Inr r, s)
      | None \<Rightarrow>
          (case RAGSearch L (snapshot s) of
             Inl e \<Rightarrow> (Inl e, log_call NewRAGSearch s)
           | Inr r \<Rightarrow> (Inr r, (log_call NewRAGSearch s)\<lparr>rag := Some r\<rparr>)))"

text \<open>
  Modelled from the spec: \<^verbatim>\<open>vectorstore.add_embeddings\<close> and \<^verbatim>\<open>vectorstore.save\<close> are
  not among the sources. ``\<^verbatim>\<open>add(vectors, metadata_list)\<close> appends entries'', and ``if no
  index exists yet, the first \<^verbatim>\<open>add\<close> call implicitly creates one''; ``\<^verbatim>\<open>save()\<close>
  persists the in-memory index and metadata to disk''.
\<close>

definition add_embeddings :: "'v rag_search \<Rightarrow> 'v list \<Rightarrow> py_dict list \<Rightarrow> 'v rag_search" where
  "add_embeddings r vectors metadata_list =
     r\<lparr>vs_index := Some ((case vs_index r of None \<Rightarrow> [] | Some es \<Rightarrow> es)
                          @ zip vectors metadata_list)\<rparr>"

definition vectorstore_save :: "'v rag_search \<Rightarrow> 'v state \<Rightarrow> 'v state" where
  "vectorstore_save r s = s\<lparr>snapshot := vs_index r\<rparr>"

subsection \<open>\<^verbatim>\<open>POST /upload\<close>\<close>

text \<open>
  Lines 119 to 142: chunk and embed the text, then add the vectors to the store and save
  it. \<open>embed_chunks\<close> stands for \<^verbatim>\<open>embed_chunks\<close> followed by the conversion to a
  \<^verbatim>\<open>float32\<close> array; the two branches on \<^verbatim>\<open>index is None\<close> are the same two calls.
\<close>

definition add_and_save :: "'v rag_search \<Rightarrow> 'v list \<Rightarrow> simple_doc list \<Rightarrow> 'v state \<Rightarrow> 'v state" where
  "add_and_save rag_instance arr chunks s =
     (let r = add_embeddings rag_instance arr (map (\<lambda>c. [(''text'', page_content c)]) chunks);
          s1 = (log_call AddEmbeddings s)\<lparr>rag := Some r\<rparr>
      in vectorstore_save r (log_call SaveVectorstore s1))"

definition embed_and_index ::
  "('h, 'v) libs \<Rightarrow> string \<Rightarrow> string \<Rightarrow> 'v state \<Rightarrow> (exn + unit) \<times> 'v state" where
  "embed_and_index L pdf_text fname s =
     (let doc_obj = \<lparr>page_content = pdf_text, metadata = [(''source_filename'', fname)]\<rparr>;
          s1 = log_call NewEmbeddingPipeline s
      in case EmbeddingPipeline L ''all-MiniLM-L6-v2'' of
           Inl e \<Rightarrow> (Inl e, s1)
         | Inr emb_pipe \<Rightarrow>
             (let s2 = log_call ChunkDocuments s1
              in case chunk_documents L [doc_obj] of
                   Inl e \<Rightarrow> (Inl e, s2)
                 | Inr chunks \<Rightarrow>
                     (let s3 = log_call EmbedChunks s2
                      in case embed_chunks L chunks of
                           Inl e \<Rightarrow> (Inl e, s3)
                         | Inr arr \<Rightarrow>
                             (case get_rag L s3 of
                                (Inl e, s4) \<Rightarrow> (Inl e, s4)
                              | (Inr rag_instance, s4) \<Rightarrow>
                                  (if vs_index rag_instance = None
                                   then (Inr (), add_and_save rag_instance arr chunks s4)
                                   else (Inr (), add_and_save rag_instance arr chunks s4))))))"

text \<open>Lines 144 to 150: where the file goes in \<^verbatim>\<open>processed_data\<close>.\<close>

definition destination :: "clock \<Rightarrow> string \<Rightarrow> 'v state \<Rightarrow> string \<times> string" where
  "destination env fname s =
     (let dest_name = fname;
          dest_path = os_path_join PROCESSED_FOLDER dest_name
      in if os_path_exists s dest_path
         then (let (base, ext) = os_path_splitext dest_name;
                   ts = strftime_now env;
                   dest_name = base @ ''_'' @ ts @ ext
               in (dest_name, os_path_join PROCESSED_FOLDER dest_name))
         else (dest_name, dest_path))"

text \<open>Lines 144 to 165: move the file and append its record to the manifest.\<close>

definition store_file ::
  "clock \<Rightarrow> string \<Rightarrow> string \<Rightarrow> string \<Rightarrow> py_dict list \<Rightarrow> 'v state \<Rightarrow> response \<times> 'v state" where
  "store_file env fname temp_path file_hash processed_index s =
     (let (dest_name, dest_path) = destination env fname s
      in case os_rename temp_path dest_path s of
           Inl e \<Rightarrow> (server_error e, s)
         | Inr s1 \<Rightarrow>
             (let new_rec = [(''filename'', dest_name),
                             (''hash'', file_hash),
                             (''processed_at'', isoformat_now env @ ''Z''),
                             (''path'', dest_path)];
                  s2 = save_processed_index (processed_index @ [new_rec]) s1
              in ((200, MessageFileBody ''File uploaded, processed, and stored successfully!'' new_rec),
                  s2)))"

text \<open>Lines 110 to 165: the upload is not in the manifest.\<close>

definition ingest_new ::
  "('h, 'v) libs \<Rightarrow> clock \<Rightarrow> string \<Rightarrow> string \<Rightarrow> string \<Rightarrow> py_dict list \<Rightarrow> 'v state
     \<Rightarrow> response \<times> 'v state" where
  "ingest_new L env fname temp_path file_hash processed_index s =
     (case extract_text_from_pdf (PdfReader L) (files s) temp_path of
        Inl e \<Rightarrow> (server_error e, s)
      | Inr pdf_text \<Rightarrow>
          if pdf_text = []
          then ((500, ErrorBody ''Failed to extract text from PDF''), os_remove_quiet temp_path s)
          else (case embed_and_index L pdf_text fname s of
                  (Inl e, s1) \<Rightarrow> (server_error e, s1)
                | (Inr u, s1) \<Rightarrow> store_file env fname temp_path file_hash processed_index s1))"

text \<open>
  The handler. Its reads ask for 8192 bytes at a time; the process is taken to get that
  buffer, as it gets every other small object the handlers make.
\<close>

definition upload_file ::
  "('h, 'v) libs \<Rightarrow> clock \<Rightarrow> upload_request \<Rightarrow> 'v state \<Rightarrow> response \<times> 'v state" where
  "upload_file L env request_files s =
     (case request_files ''file'' of
        None \<Rightarrow> ((400, ErrorBody ''No file part''), s)
      | Some file \<Rightarrow>
          if filename file = [] then ((400, ErrorBody ''No selected file''), s)
          else
            (let fname = secure_filename L (filename file);
                 temp_path = os_path_join UPLOAD_FOLDER fname
             in case file_save file temp_path s of
                  Inl e \<Rightarrow> (server_error e, s)
                | Inr s1 \<Rightarrow>
                    (case compute_file_hash (hashlib L) default_chunk_size (files s1) temp_path
                            default_chunk_size of
                       Inl e \<Rightarrow> (server_error e, s1)
                     | Inr file_hash \<Rightarrow>
                         (let processed_index = load_processed_index s1
                          in if hash_seen processed_index file_hash
                             then ((200, MessageBody ''File already processed earlier. Ready to chat!''),
                                   os_remove_quiet temp_path s1)
                             else ingest_new L env fname temp_path file_hash processed_index s1))))"

subsection \<open>\<^verbatim>\<open>GET /processed\<close>\<close>

text \<open>
  \<^verbatim>\<open>sorted(xs, key=f, reverse=True)\<close>: a stable sort in which equal keys keep the order
  they had, which Python obtains by sorting the reversed list and reversing the result.
  Strings compare as Python's do, character by character by code.
\<close>

definition sorted_reverse :: "('a \<Rightarrow> string) \<Rightarrow> 'a list \<Rightarrow> 'a list" where
  "sorted_reverse f xs = rev (sort_key f (rev xs))"

definition processed_at_key :: "py_dict \<Rightarrow> string" where
  "processed_at_key x = (case dict_get x ''processed_at'' of None \<Rightarrow> [] | Some v \<Rightarrow> v)"

definition list_processed :: "'v state \<Rightarrow> response \<times> 'v state" where
  "list_processed s =
     (let processed_index = load_processed_index s;
          processed_index_sorted = sorted_reverse processed_at_key processed_index
      in ((200, ProcessedBody processed_index_sorted), s))"

subsection \<open>\<^verbatim>\<open>POST /chat\<close>\<close>

text \<open>\<^verbatim>\<open>request.json.get("message", "")\<close>: only a JSON object has \<^verbatim>\<open>get\<close>.\<close>

definition get_message :: "jvalue \<Rightarrow> exn + jvalue" where
  "get_message j =
     (case j of
        JObj kvs \<Rightarrow> (case map_of kvs ''message'' of None \<Rightarrow> Inr (JStr []) | Some v \<Rightarrow> Inr v)
      | _ \<Rightarrow> Inl (AttributeError ''get''))"

text \<open>
  \<open>request_json\<close> is what reading \<^verbatim>\<open>request.json\<close> does: it raises (a body that is not
  JSON) or gives the value.
\<close>

definition chat :: "('h, 'v) libs \<Rightarrow> exn + jvalue \<Rightarrow> 'v state \<Rightarrow> response \<times> 'v state" where
  "chat L request_json s =
     (case get_rag L s of
        (Inl e, s1) \<Rightarrow> (server_error e, s1)
      | (Inr rag_instance, s1) \<Rightarrow>
          (case request_json of
             Inl e \<Rightarrow> (server_error e, s1)
           | Inr j \<Rightarrow>
               (case get_message j of
                  Inl e \<Rightarrow> (server_error e, s1)
                | Inr user_message \<Rightarrow>
                    if \<not> truthy user_message
                    then ((400, ErrorBody ''Message cannot be empty''), s1)
                    else (let s2 = log_call SearchAndSummarize s1
                          in case search_and_summarize L rag_instance user_message of
                               Inl e \<Rightarrow> (server_error e, s2)
                             | Inr response \<Rightarrow> ((200, ResponseBody response), s2)))))"

subsection \<open>Notions the properties are stated with\<close>

text \<open>
  The chunks the loop of \<^verbatim>\<open>compute_file_hash\<close> reads when every read succeeds, in
  order.
\<close>

function chunks_read :: "int \<Rightarrow> bytes \<Rightarrow> bytes list" where
  "chunks_read chunk_size rest =
     (let chunk = fst (read_result chunk_size rest)
      in if chunk = [] then []
         else chunk # chunks_read chunk_size (snd (read_result chunk_size rest)))"
  by pat_completeness auto
termination
  by (relation "measure (\<lambda>(n, rest). length rest)")
     (auto simp: read_result_def split: if_splits)

declare chunks_read.simps [simp del]

text \<open>
  Hashing a whole content at once, \<^verbatim>\<open>hashlib.sha256(content).hexdigest()\<close>, and what
  \<^verbatim>\<open>hashlib\<close> promises of a hash object: feeding chunks one by one gives the digest of
  their concatenation, and a SHA-256 digest is 64 hexadecimal characters.
\<close>

definition one_shot :: "'h hasher \<Rightarrow> bytes \<Rightarrow> string" where
  "one_shot H content = h_hexdigest H (h_update H (h_new H) content)"

definition hashlib_contract :: "'h hasher \<Rightarrow> bool" where
  "hashlib_contract H =
     (\<forall>cs. h_hexdigest H (foldl (h_update H) (h_new H) cs)
           = h_hexdigest H (h_update H (h_new H) (concat cs)))"

definition is_hex64 :: "string \<Rightarrow> bool" where
  "is_hex64 d = (length d = 64 \<and> set d \<subseteq> set ''0123456789abcdef'')"

definition sha256_digests :: "'h hasher \<Rightarrow> bool" where
  "sha256_digests H = (\<forall>h. is_hex64 (h_hexdigest H h))"

text \<open>
  The sizes \<^verbatim>\<open>f.read\<close> accepts for a file of the given content: \<open>-1\<close> when the process
  can hold the whole content, or a positive size that a \<^verbatim>\<open>bytes\<close> object can have and
  the process can get.
\<close>

definition read_size_ok :: "int \<Rightarrow> int \<Rightarrow> bytes \<Rightarrow> bool" where
  "read_size_ok avail chunk_size content =
     ((chunk_size = - 1 \<and> int (length content) \<le> avail)
      \<or> (0 < chunk_size \<and> chunk_size \<le> avail \<and> chunk_size \<le> max_bytes_size))"

text \<open>The digest of an upload's bytes fed in chunks of 8192.\<close>

definition content_hash :: "'h hasher \<Rightarrow> bytes \<Rightarrow> string" where
  "content_hash H content =
     h_hexdigest H (foldl (h_update H) (h_new H) (chunks_read default_chunk_size content))"

text \<open>
  A sanitized name that \<^verbatim>\<open>file.save\<close> can write under \<^verbatim>\<open>data\<close>: it is not empty
  (\<^verbatim>\<open>secure_filename\<close> returns the empty string for a name such as \<^verbatim>\<open>../\<close>), it is at
  most 255 bytes long (\<^verbatim>\<open>secure_filename\<close> does not shorten a name) and, as every name
  \<^verbatim>\<open>secure_filename\<close> returns, it holds no separator and is not \<^verbatim>\<open>.\<close> or \<^verbatim>\<open>..\<close>.
\<close>

definition storable :: "string \<Rightarrow> bool" where
  "storable name =
     (name \<noteq> [] \<and> length name \<le> 255 \<and> CHR ''/'' \<notin> set name
      \<and> name \<noteq> ''.'' \<and> name \<noteq> ''..'')"

text \<open>
  A document whose pages all load, the pages an iteration yields before it ends or
  raises, and the text one page contributes.
\<close>

fun pages_of :: "page list \<Rightarrow> pages" where
  "pages_of [] = NoMorePages"
| "pages_of (p # ps) = NextPage p (pages_of ps)"

fun yielded :: "pages \<Rightarrow> page list" where
  "yielded NoMorePages = []"
| "yielded (PagesRaise e) = []"
| "yielded (NextPage p rest) = p # yielded rest"

definition page_text :: "page \<Rightarrow> string" where
  "page_text p = (case p of Inl e \<Rightarrow> [] | Inr None \<Rightarrow> [] | Inr (Some t) \<Rightarrow> t)"

text \<open>The manifest's invariant: no two records with the same \<^verbatim>\<open>"hash"\<close>.\<close>

definition unique_hashes :: "py_dict list \<Rightarrow> bool" where
  "unique_hashes index_list = distinct (map (\<lambda>rec. dict_get rec ''hash'') index_list)"

text \<open>The same state, its manifest file holding what \<^verbatim>\<open>load_processed_index\<close> reads from it.\<close>

definition as_loaded :: "'v state \<Rightarrow> 'v state" where
  "as_loaded s = s\<lparr>manifest := Records (load_processed_index s)\<rparr>"

text \<open>
  The states the service gets into. It starts with a manifest holding \<^verbatim>\<open>[]\<close> (lines 21
  to 23); each request runs its handler to the end before the next one; a restart of the
  process keeps the disk and forgets \<^verbatim>\<open>rag\<close>; and the manifest's file may be damaged
  from outside so that it no longer parses.
\<close>

inductive reachable :: "('h, 'v) libs \<Rightarrow> 'v state \<Rightarrow> bool" for L :: "('h, 'v) libs" where
  start: "manifest s = Records [] \<Longrightarrow> rag s = None \<Longrightarrow> reachable L s"
| upload: "reachable L s \<Longrightarrow> reachable L (snd (upload_file L env request_files s))"
| processed: "reachable L s \<Longrightarrow> reachable L (snd (list_processed s))"
| chat: "reachable L s \<Longrightarrow> reachable L (snd (chat L request_json s))"
| restart: "reachable L s \<Longrightarrow> reachable L (s\<lparr>rag := None\<rparr>)"
| damaged: "reachable L s \<Longrightarrow> reachable L (s\<lparr>manifest := Unparseable\<rparr>)"

subsection \<open>An instance for the examples\<close>

text \<open>
  Stand-ins for the libraries, small enough to run: a hash object that keeps the bytes
  it was fed and prints their sum as a digest, a reader that finds one page in a
  non-empty file (a page without text when the first byte is 0), one chunk per document
  and its length as the vector.
\<close>

definition hex_digit :: "nat \<Rightarrow> char" where
  "hex_digit n = ''0123456789abcdef'' ! (n mod 16)"

definition demo_hexdigest :: "bytes \<Rightarrow> string" where
  "demo_hexdigest bs =
     (let s = sum_list (map unat bs) mod 256
      in replicate 62 (CHR ''0'') @ [hex_digit (s div 16), hex_digit s])"

definition demo_hashlib :: "bytes hasher" where
  "demo_hashlib =
     \<lparr>h_new = [], h_update = (\<lambda>h chunk. h @ chunk), h_hexdigest = demo_hexdigest\<rparr>"

definition demo_PdfReader :: "bytes \<Rightarrow> exn + pages" where
  "demo_PdfReader content =
     (if content = [] then Inl (Exception ''PdfReadError'')
      else if hd content = 0 then Inr (pages_of [Inl (Exception ''no text layer'')])
      else Inr (pages_of [Inr (Some ''Rice needs water.'')]))"

definition demo_libs :: "(bytes, nat) libs" where
  "demo_libs =
     \<lparr>hashlib = demo_hashlib,
      secure_filename = filter (\<lambda>c. c \<noteq> CHR ''/''),
      PdfReader = demo_PdfReader,
      EmbeddingPipeline = (\<lambda>model_name. Inr ()),
      chunk_documents = (\<lambda>docs. Inr docs),
      embed_chunks = (\<lambda>chunks. Inr (map (\<lambda>c. length (page_content c)) chunks)),
      RAGSearch = (\<lambda>snap. Inr \<lparr>vs_index = snap\<rparr>),
      search_and_summarize = (\<lambda>r m. Inr ''answer'')\<rparr>"

definition fresh :: "nat state" where
  "fresh = \<lparr>files = Map.empty, manifest = Records [], rag = None, snapshot = None, calls = []\<rparr>"

definition demo_upload :: "string \<Rightarrow> bytes \<Rightarrow> upload_request" where
  "demo_upload name content = [''file'' \<mapsto> \<lparr>filename = name, stream = content\<rparr>]"

definition demo_clock :: clock where
  "demo_clock =
     \<lparr>strftime_now = ''20261103120000'', isoformat_now = ''2026-11-03T12:00:00.000001''\<rparr>"

text \<open>The state after a first upload, of \<^verbatim>\<open>a.pdf\<close> holding the two bytes \<^verbatim>\<open>AB\<close>.\<close>

definition after_first :: "nat state" where
  "after_first = snd (upload_file demo_libs demo_clock (demo_upload ''a.pdf'' [65, 66]) fresh)"

text \<open>
  Two more uploads under the name \<^verbatim>\<open>a.pdf\<close>, of other bytes, handled within the same
  second: the clock's \<^verbatim>\<open>strftime\<close> reading is the same, the microseconds differ.
\<close>

definition demo_clock_later :: clock where
  "demo_clock_later = demo_clock\<lparr>isoformat_now := ''2026-11-03T12:00:00.650000''\<rparr>"

definition after_second :: "nat state" where
  "after_second = snd (upload_file demo_libs demo_clock (demo_upload ''a.pdf'' [65, 67]) after_first)"

definition after_third :: "nat state" where
  "after_third =
     snd (upload_file demo_libs demo_clock_later (demo_upload ''a.pdf'' [65, 68]) after_second)"

text \<open>The same stand-ins, but \<^verbatim>\<open>RAGSearch()\<close> raises.\<close>

definition demo_libs_down :: "(bytes, nat) libs" where
  "demo_libs_down =
     demo_libs\<lparr>RAGSearch := (\<lambda>snap. Inl (Exception ''vector store unreadable''))\<rparr>"

text \<open>A manifest of three records, not in the order of their time stamps.\<close>

definition demo_rec :: "string \<Rightarrow> string \<Rightarrow> string \<Rightarrow> py_dict" where
  "demo_rec name h stamp =
     [(''filename'', name), (''hash'', h), (''processed_at'', stamp),
      (''path'', os_path_join PROCESSED_FOLDER name)]"

definition three_records :: "nat state" where
  "three_records =
     fresh\<lparr>manifest := Records
       [demo_rec ''a.pdf'' ''01'' ''2026-11-01T08:00:00.000000Z'',
        demo_rec ''b.pdf'' ''02'' ''2026-11-03T09:30:00.000000Z'',
        demo_rec ''c.pdf'' ''03'' ''2026-11-02T10:00:00.000000Z'']\<rparr>"

section \<open>Properties\<close>

subsection \<open>The content hash\<close>

lemma read_loop_foldl:
  assumes "read_size_ok avail n rest \<or> n = 0"
  shows "read_loop H avail n rest h = Inr (foldl (h_update H) h (chunks_read n rest))"
  using assms
proof (induction H avail n rest h rule: read_loop.induct)
  case (1 H avail n rest h)
  from "1.prems" have ok: "f_read avail n rest = Inr (read_result n rest)"
    by (auto simp: f_read_def read_size_ok_def max_bytes_size_def Let_def)
  obtain chunk unread where r: "read_result n rest = (chunk, unread)"
    by (cases "read_result n rest")
  show ?case
  proof (cases "chunk = []")
    case True
    with ok r show ?thesis
      by (subst read_loop.simps, subst chunks_read.simps) simp
  next
    case False
    from "1.prems" r False have "read_size_ok avail n unread \<or> n = 0"
      by (auto simp: read_size_ok_def read_result_def split: if_splits)
    from "1.IH" [OF ok r [symmetric] False this] ok r False show ?thesis
      by (subst read_loop.simps, subst chunks_read.simps) (simp add: Let_def)
  qed
qed

lemma concat_chunks_read:
  "n \<noteq> 0 \<Longrightarrow> concat (chunks_read n rest) = rest"
proof (induction n rest rule: chunks_read.induct)
  case (1 n rest)
  show ?case
  proof (cases "fst (read_result n rest) = []")
    case True
    with "1.prems" have "rest = []"
      by (auto simp: read_result_def split: if_splits)
    with True show ?thesis
      by (subst chunks_read.simps) simp
  next
    case False
    have "concat (chunks_read n (snd (read_result n rest))) = snd (read_result n rest)"
      using "1.IH" [OF refl False "1.prems"] .
    moreover have "fst (read_result n rest) @ snd (read_result n rest) = rest"
      by (simp add: read_result_def)
    ultimately show ?thesis
      using False by (subst chunks_read.simps) (simp add: Let_def)
  qed
qed

lemma chunks_read_sizes:
  "0 < n \<Longrightarrow> c \<in> set (chunks_read n rest) \<Longrightarrow> c \<noteq> [] \<and> length c \<le> nat n"
proof (induction n rest rule: chunks_read.induct)
  case (1 n rest)
  show ?case
  proof (cases "fst (read_result n rest) = []")
    case True
    with "1.prems" show ?thesis
      by (subst (asm) chunks_read.simps) simp
  next
    case False
    from "1.prems"(2) False
    have "c = fst (read_result n rest) \<or> c \<in> set (chunks_read n (snd (read_result n rest)))"
      by (subst (asm) chunks_read.simps) (simp add: Let_def)
    then show ?thesis
    proof
      assume "c = fst (read_result n rest)"
      with False "1.prems"(1) show ?thesis
        by (simp add: read_result_def)
    next
      assume "c \<in> set (chunks_read n (snd (read_result n rest)))"
      with "1.IH" [OF refl False "1.prems"(1)] show ?thesis
        by simp
    qed
  qed
qed

text \<open>Sizes that \<^verbatim>\<open>f.read\<close> refuses end the loop, and the function, with the exception.\<close>

lemma compute_file_hash_refused:
  assumes "disk path = Some content"
  shows "chunk_size < - 1 \<Longrightarrow>
           compute_file_hash H avail disk path chunk_size
             = Inl (ValueError ''read length must be non-negative or -1'')"
    and "max_bytes_size < chunk_size \<Longrightarrow>
           compute_file_hash H avail disk path chunk_size
             = Inl (OverflowError ''too large for a bytes object'')"
    and "0 < chunk_size \<Longrightarrow> chunk_size \<le> max_bytes_size \<Longrightarrow> avail < chunk_size \<Longrightarrow>
           compute_file_hash H avail disk path chunk_size = Inl MemoryError"
  using assms
  by (simp_all add: compute_file_hash_def read_loop.simps f_read_def max_bytes_size_def)

lemma upload_read_size_ok: "read_size_ok default_chunk_size default_chunk_size content"
  by (simp add: read_size_ok_def default_chunk_size_def max_bytes_size_def)

lemma content_hash_one_shot:
  "hashlib_contract H \<Longrightarrow> content_hash H content = one_shot H content"
  by (simp add: content_hash_def one_shot_def hashlib_contract_def
      concat_chunks_read default_chunk_size_def)

lemma demo_hashlib_contract: "hashlib_contract demo_hashlib"
proof -
  have "foldl (\<lambda>h chunk. h @ chunk) h cs = h @ concat cs" for h :: bytes and cs
    by (induction cs arbitrary: h) simp_all
  then show ?thesis
    by (simp add: hashlib_contract_def demo_hashlib_def)
qed

lemma hex_digit_in: "hex_digit n \<in> set ''0123456789abcdef''"
  unfolding hex_digit_def by (rule nth_mem) simp

lemma demo_sha256_digests: "sha256_digests demo_hashlib"
  using hex_digit_in
  by (simp add: sha256_digests_def is_hex64_def demo_hashlib_def demo_hexdigest_def Let_def)

text \<open>
  Claim C7. For every file content and every chunk size that \<^verbatim>\<open>f.read\<close> accepts (\<open>-1\<close>, or
  a positive size the process can allocate; the handler uses 8192), feeding the chunks
  \<^verbatim>\<open>compute_file_hash\<close> reads to the incremental hash gives the digest of the whole content
  hashed at once, 64 hexadecimal characters: the result depends on the file's bytes
  alone, not on the path, the other files or the chunk size. The two promises of
  \<^verbatim>\<open>hashlib\<close> used are hypotheses.
\<close>

theorem compute_file_hash_chunk_independent:
  assumes "hashlib_contract H" and "sha256_digests H"
    and "read_size_ok avail chunk_size content" and "disk path = Some content"
  shows "compute_file_hash H avail disk path chunk_size = Inr (one_shot H content)
         \<and> is_hex64 (one_shot H content)"
proof -
  from assms(3) have "chunk_size \<noteq> 0"
    by (auto simp: read_size_ok_def)
  with assms show ?thesis
    by (simp add: compute_file_hash_def one_shot_def read_loop_foldl hashlib_contract_def
        concat_chunks_read sha256_digests_def)
qed

theorem compute_file_hash_chunk_independent_witness:
  "read_size_ok 8192 2 [1, 2, 3, 4, 5]
   \<and> compute_file_hash demo_hashlib 8192 [''data/a.pdf'' \<mapsto> [1, 2, 3, 4, 5]] ''data/a.pdf'' 2
     = Inr (one_shot demo_hashlib [1, 2, 3, 4, 5])
   \<and> compute_file_hash demo_hashlib 8192 [''data/a.pdf'' \<mapsto> [1, 2, 3, 4, 5]] ''data/a.pdf'' 2
     = Inr ''000000000000000000000000000000000000000000000000000000000000000f''
   \<and> chunks_read 2 [1, 2, 3, 4, 5 :: byte] = [[1, 2], [3, 4], [5]]
   \<and> compute_file_hash demo_hashlib 8192 [''data/a.pdf'' \<mapsto> [1, 2, 3, 4, 5]] ''data/a.pdf'' (- 1)
     = Inr ''000000000000000000000000000000000000000000000000000000000000000f''"
proof -
  have d: "one_shot demo_hashlib [1, 2, 3, 4, 5]
          = ''000000000000000000000000000000000000000000000000000000000000000f''"
    by code_simp
  have c: "chunks_read 2 [1, 2, 3, 4, 5 :: byte] = [[1, 2], [3, 4], [5]]"
    by (simp add: chunks_read.simps read_result_def)
  have ok2: "read_size_ok 8192 2 [1, 2, 3, 4, 5]"
    and ok1: "read_size_ok 8192 (- 1) [1, 2, 3, 4, 5]"
    by (simp_all add: read_size_ok_def max_bytes_size_def)
  from d c ok2
    compute_file_hash_chunk_independent
      [OF demo_hashlib_contract demo_sha256_digests ok2,
        of "[''data/a.pdf'' \<mapsto> [1, 2, 3, 4, 5]]" "''data/a.pdf''"]
    compute_file_hash_chunk_independent
      [OF demo_hashlib_contract demo_sha256_digests ok1,
        of "[''data/a.pdf'' \<mapsto> [1, 2, 3, 4, 5]]" "''data/a.pdf''"]
  show ?thesis
    by simp
qed

subsection \<open>What a handler leaves alone\<close>

lemma get_rag_frame:
  "files (snd (get_rag L s)) = files s \<and> manifest (snd (get_rag L s)) = manifest s
   \<and> snapshot (snd (get_rag L s)) = snapshot s"
  by (simp add: get_rag_def log_call_def split: option.splits sum.splits)

lemma add_and_save_frame:
  "files (add_and_save r arr chunks s) = files s \<and> manifest (add_and_save r arr chunks s) = manifest s"
  by (simp add: add_and_save_def Let_def vectorstore_save_def log_call_def)

lemma embed_and_index_frame:
  assumes "embed_and_index L pdf_text fname s = (r, s')"
  shows "files s' = files s \<and> manifest s' = manifest s"
proof -
  define s3 where
    "s3 = log_call EmbedChunks (log_call ChunkDocuments (log_call NewEmbeddingPipeline s))"
  obtain r4 s4 where g: "get_rag L s3 = (r4, s4)"
    by (cases "get_rag L s3")
  have "files s3 = files s \<and> manifest s3 = manifest s"
    by (simp add: s3_def log_call_def)
  moreover have "files s4 = files s \<and> manifest s4 = manifest s"
    using get_rag_frame [of L s3] g by (simp add: s3_def log_call_def)
  ultimately show ?thesis
    using assms g unfolding embed_and_index_def Let_def s3_def [symmetric]
    by (auto split: sum.splits if_splits simp: add_and_save_frame log_call_def)
qed

lemma server_error_not_file: "server_error e \<noteq> (200, MessageFileBody m rec)"
  by (simp add: server_error_def split: exn.splits)


lemma store_file_cases:
  assumes "store_file env fname temp_path h idx s = (resp, s')"
  shows "(\<exists>rec. resp = (200, MessageFileBody ''File uploaded, processed, and stored successfully!'' rec)
            \<and> manifest s' = Records (idx @ [rec]) \<and> dict_get rec ''hash'' = Some h)
         \<or> ((\<forall>m rec. resp \<noteq> (200, MessageFileBody m rec)) \<and> manifest s' = manifest s)"
proof (cases "os_rename temp_path (snd (destination env fname s)) s")
  case (Inl e)
  with assms show ?thesis
    by (auto simp: store_file_def server_error_not_file split: prod.splits)
next
  case (Inr s1)
  with assms show ?thesis
    by (auto simp: store_file_def save_processed_index_def dict_get_def Let_def split: prod.splits)
qed

lemma os_remove_quiet_manifest [simp]: "manifest (os_remove_quiet p s) = manifest s"
  by (simp add: os_remove_quiet_def)

lemma ingest_new_cases:
  assumes "ingest_new L env fname temp_path h idx s = (resp, s')"
  shows "(\<exists>rec. resp = (200, MessageFileBody ''File uploaded, processed, and stored successfully!'' rec)
            \<and> manifest s' = Records (idx @ [rec]) \<and> dict_get rec ''hash'' = Some h)
         \<or> ((\<forall>m rec. resp \<noteq> (200, MessageFileBody m rec)) \<and> manifest s' = manifest s)"
proof (cases "extract_text_from_pdf (PdfReader L) (files s) temp_path")
  case (Inl e)
  with assms show ?thesis
    by (auto simp: ingest_new_def server_error_not_file)
next
  case (Inr pdf_text)
  show ?thesis
  proof (cases "pdf_text = []")
    case True
    with Inr assms show ?thesis
      by (auto simp: ingest_new_def)
  next
    case False
    obtain r1 s1 where e: "embed_and_index L pdf_text fname s = (r1, s1)"
      by (cases "embed_and_index L pdf_text fname s")
    then have m: "manifest s1 = manifest s"
      using embed_and_index_frame by blast
    show ?thesis
    proof (cases r1)
      case (Inl e1)
      with Inr False e assms m show ?thesis
        by (auto simp: ingest_new_def server_error_not_file)
    next
      case (Inr u)
      with \<open>extract_text_from_pdf (PdfReader L) (files s) temp_path = Inr pdf_text\<close> False e assms
      have "store_file env fname temp_path h idx s1 = (resp, s')"
        by (simp add: ingest_new_def)
      from store_file_cases [OF this] m show ?thesis
        by simp
    qed
  qed
qed

lemma upload_file_cases:
  assumes "upload_file L env request_files s = (resp, s')"
  shows "(\<exists>rec h. resp = (200, MessageFileBody ''File uploaded, processed, and stored successfully!'' rec)
            \<and> manifest s' = Records (load_processed_index s @ [rec])
            \<and> dict_get rec ''hash'' = Some h \<and> \<not> hash_seen (load_processed_index s) h)
         \<or> ((\<forall>m rec. resp \<noteq> (200, MessageFileBody m rec)) \<and> manifest s' = manifest s)"
proof (cases "request_files ''file''")
  case None
  with assms show ?thesis
    by (auto simp: upload_file_def)
next
  case (Some upl)
  define temp_path where "temp_path = os_path_join UPLOAD_FOLDER (secure_filename L (filename upl))"
  show ?thesis
  proof (cases "filename upl = []")
    case True
    with Some assms show ?thesis
      by (auto simp: upload_file_def)
  next
    case False
    show ?thesis
    proof (cases "file_save upl temp_path s")
      case (Inl e)
      with Some False assms show ?thesis
        by (auto simp: upload_file_def temp_path_def server_error_not_file)
    next
      case (Inr s1)
      then have s1: "manifest s1 = manifest s" "load_processed_index s1 = load_processed_index s"
        by (auto simp: file_save_def load_processed_index_def split: option.splits)
      show ?thesis
      proof (cases "compute_file_hash (hashlib L) default_chunk_size (files s1) temp_path
                      default_chunk_size")
        case (Inl e)
        with Some False \<open>file_save upl temp_path s = Inr s1\<close> assms s1 show ?thesis
          by (auto simp: upload_file_def temp_path_def server_error_not_file)
      next
        case (Inr file_hash)
        show ?thesis
        proof (cases "hash_seen (load_processed_index s) file_hash")
          case True
          with Some False \<open>file_save upl temp_path s = Inr s1\<close> Inr assms s1 show ?thesis
            by (auto simp: upload_file_def temp_path_def)
        next
          case unseen: False
          with Some False \<open>file_save upl temp_path s = Inr s1\<close> Inr assms s1
          have "ingest_new L env (secure_filename L (filename upl)) temp_path file_hash
                  (load_processed_index s) s1 = (resp, s')"
            by (simp add: upload_file_def temp_path_def Let_def)
          from ingest_new_cases [OF this] s1 unseen show ?thesis
            by auto
        qed
      qed
    qed
  qed
qed

subsection \<open>The upload handler up to the look-up in the manifest\<close>

lemma basename_join:
  assumes "name \<noteq> []" and "CHR ''/'' \<notin> set name" and "folder \<noteq> []"
  shows "basename (os_path_join folder name) = name"
proof -
  from assms(1,2) have "hd name \<noteq> CHR ''/''"
    by (auto dest: hd_in_set)
  then have "\<exists>pre. os_path_join folder name = pre @ ''/'' @ name"
  proof (cases "last folder = CHR ''/''")
    case True
    with assms(3) have "butlast folder @ ''/'' = folder"
      using append_butlast_last_id [of folder] by simp
    with True \<open>hd name \<noteq> CHR ''/''\<close> assms(3) show ?thesis
      by (metis append.assoc os_path_join_def)
  next
    case False
    with \<open>hd name \<noteq> CHR ''/''\<close> assms(3) show ?thesis
      by (auto simp: os_path_join_def)
  qed
  then obtain pre where "os_path_join folder name = pre @ ''/'' @ name"
    by blast
  moreover have "takeWhile (\<lambda>c. c \<noteq> CHR ''/'') (rev name @ CHR ''/'' # rev pre) = rev name"
    using assms(2) by (auto simp: takeWhile_tail)
  ultimately show ?thesis
    by (simp add: basename_def)
qed

lemma path_error_storable:
  "storable name \<Longrightarrow> path_error (os_path_join UPLOAD_FOLDER name) = None"
proof -
  assume st: "storable name"
  then have "basename (os_path_join UPLOAD_FOLDER name) = name"
    by (simp add: storable_def basename_join UPLOAD_FOLDER_def)
  moreover from st have "os_path_join UPLOAD_FOLDER name \<noteq> []"
    by (auto simp: os_path_join_def storable_def UPLOAD_FOLDER_def)
  ultimately show ?thesis
    using st by (simp add: path_error_def storable_def)
qed

lemma file_save_storable:
  "storable name \<Longrightarrow>
     file_save file (os_path_join UPLOAD_FOLDER name) s
       = Inr (s\<lparr>files := (files s)(os_path_join UPLOAD_FOLDER name \<mapsto> stream file)\<rparr>)"
  by (simp add: file_save_def path_error_storable)

lemma compute_file_hash_just_saved:
  "compute_file_hash H default_chunk_size (disk(path \<mapsto> content)) path default_chunk_size
     = Inr (content_hash H content)"
  by (simp add: compute_file_hash_def content_hash_def read_loop_foldl upload_read_size_ok)

lemma hash_seen_iff:
  "hash_seen index_list h \<longleftrightarrow> Some h \<in> set (map (\<lambda>rec. dict_get rec ''hash'') index_list)"
  by (induction index_list) auto

lemma load_processed_index_files [simp]:
  "load_processed_index (s\<lparr>files := fs\<rparr>) = load_processed_index s"
  by (simp add: load_processed_index_def)

lemma upload_file_saved:
  assumes "request_files ''file'' = Some file" and "filename file \<noteq> []"
    and "fname = secure_filename L (filename file)" and "storable fname"
  shows "upload_file L env request_files s =
           (if hash_seen (load_processed_index s) (content_hash (hashlib L) (stream file))
            then ((200, MessageBody ''File already processed earlier. Ready to chat!''),
                  s\<lparr>files := (files s)(os_path_join UPLOAD_FOLDER fname := None)\<rparr>)
            else ingest_new L env fname (os_path_join UPLOAD_FOLDER fname)
                   (content_hash (hashlib L) (stream file)) (load_processed_index s)
                   (s\<lparr>files := (files s)(os_path_join UPLOAD_FOLDER fname \<mapsto> stream file)\<rparr>))"
  using assms
  by (simp add: upload_file_def Let_def file_save_storable compute_file_hash_just_saved
      os_remove_quiet_def)

text \<open>
  Without a storable name the handler does not get that far: an upload whose sanitized
  name is empty fails in \<^verbatim>\<open>file.save\<close>, whatever its content.
\<close>

lemma upload_file_empty_name:
  assumes "request_files ''file'' = Some file" and "filename file \<noteq> []"
    and "secure_filename L (filename file) = []"
  shows "upload_file L env request_files s = ((500, Unhandled (OSError ''IsADirectoryError'')), s)"
  using assms
  by (simp add: upload_file_def file_save_def path_error_def basename_def os_path_join_def
      UPLOAD_FOLDER_def server_error_def)

text \<open>Nor with a sanitized name longer than a file name can be.\<close>

lemma upload_file_long_name:
  assumes "request_files ''file'' = Some file" and "filename file \<noteq> []"
    and "fname = secure_filename L (filename file)"
    and "CHR ''/'' \<notin> set fname" and "255 < length fname"
  shows "upload_file L env request_files s = ((500, Unhandled (OSError ''File name too long'')), s)"
proof -
  from assms(5) have ne: "fname \<noteq> []"
    by auto
  with assms(4) have b: "basename (os_path_join UPLOAD_FOLDER fname) = fname"
    by (simp add: basename_join UPLOAD_FOLDER_def)
  from ne assms(4) have "os_path_join UPLOAD_FOLDER fname \<noteq> []"
    by (auto simp: os_path_join_def UPLOAD_FOLDER_def)
  with b assms(5) have "path_error (os_path_join UPLOAD_FOLDER fname)
                          = Some (OSError ''File name too long'')"
    by (auto simp: path_error_def)
  with assms(1-3) show ?thesis
    by (simp add: upload_file_def file_save_def server_error_def)
qed

subsection \<open>The example uploads\<close>

lemma demo_content_hash: "content_hash demo_hashlib content = demo_hexdigest content"
proof -
  have "content_hash demo_hashlib content = one_shot demo_hashlib content"
    by (simp add: content_hash_one_shot demo_hashlib_contract)
  then show ?thesis
    by (simp add: one_shot_def demo_hashlib_def)
qed

lemmas demo_defs =
  demo_libs_def demo_upload_def demo_clock_def fresh_def demo_PdfReader_def
  UPLOAD_FOLDER_def PROCESSED_FOLDER_def PROCESSED_INDEX_def os_path_join_def storable_def
  path_error_def basename_def
  load_processed_index_def save_processed_index_def os_remove_quiet_def os_rename_def
  os_path_exists_def destination_def store_file_def ingest_new_def embed_and_index_def
  add_and_save_def add_embeddings_def vectorstore_save_def get_rag_def log_call_def
  extract_text_from_pdf_def read_pdf_def dict_get_def Let_def

lemma demo_digest_AB: "demo_hexdigest [65, 66] = ''0000000000000000000000000000000000000000000000000000000000000083''"
  by code_simp

lemma strip_demo_text: "str_strip ''Rice needs water.'' = ''Rice needs water.''"
  by code_simp

lemma splitext_a_pdf: "os_path_splitext ''a.pdf'' = (''a'', ''.pdf'')"
  by code_simp

lemma demo_first:
  "upload_file demo_libs demo_clock (demo_upload ''a.pdf'' [65, 66]) fresh
     = ((200, MessageFileBody ''File uploaded, processed, and stored successfully!''
               [(''filename'', ''a.pdf''),
                (''hash'', ''0000000000000000000000000000000000000000000000000000000000000083''),
                (''processed_at'', ''2026-11-03T12:00:00.000001Z''),
                (''path'', ''processed_data/a.pdf'')]),
        \<lparr>files = [''processed_data/a.pdf'' \<mapsto> [65, 66]],
         manifest = Records [[(''filename'', ''a.pdf''),
                (''hash'', ''0000000000000000000000000000000000000000000000000000000000000083''),
                (''processed_at'', ''2026-11-03T12:00:00.000001Z''),
                (''path'', ''processed_data/a.pdf'')]],
         rag = Some \<lparr>vs_index = Some [(17, [(''text'', ''Rice needs water.'')])]\<rparr>,
         snapshot = Some [(17, [(''text'', ''Rice needs water.'')])],
         calls = [NewEmbeddingPipeline, ChunkDocuments, EmbedChunks, NewRAGSearch,
                  AddEmbeddings, SaveVectorstore]\<rparr>)"
  by (subst upload_file_saved [of _ "\<lparr>filename = ''a.pdf'', stream = [65, 66]\<rparr>" "''a.pdf''"])
     (simp_all add: demo_defs demo_content_hash demo_digest_AB strip_demo_text splitext_a_pdf)

lemma after_first_eq:
  "after_first =
        \<lparr>files = [''processed_data/a.pdf'' \<mapsto> [65, 66]],
         manifest = Records [[(''filename'', ''a.pdf''),
                (''hash'', ''0000000000000000000000000000000000000000000000000000000000000083''),
                (''processed_at'', ''2026-11-03T12:00:00.000001Z''),
                (''path'', ''processed_data/a.pdf'')]],
         rag = Some \<lparr>vs_index = Some [(17, [(''text'', ''Rice needs water.'')])]\<rparr>,
         snapshot = Some [(17, [(''text'', ''Rice needs water.'')])],
         calls = [NewEmbeddingPipeline, ChunkDocuments, EmbedChunks, NewRAGSearch,
                  AddEmbeddings, SaveVectorstore]\<rparr>"
  by (simp add: after_first_def demo_first)

lemma demo_digest_AC: "demo_hexdigest [65, 67] = ''0000000000000000000000000000000000000000000000000000000000000084''"
  by code_simp

lemma demo_second:
  "upload_file demo_libs demo_clock (demo_upload ''a.pdf'' [65, 67]) after_first
     = ((200, MessageFileBody ''File uploaded, processed, and stored successfully!''
               [(''filename'', ''a_20261103120000.pdf''),
                (''hash'', ''0000000000000000000000000000000000000000000000000000000000000084''),
                (''processed_at'', ''2026-11-03T12:00:00.000001Z''),
                (''path'', ''processed_data/a_20261103120000.pdf'')]),
        \<lparr>files = [''processed_data/a.pdf'' \<mapsto> [65, 66],
                  ''processed_data/a_20261103120000.pdf'' \<mapsto> [65, 67]],
         manifest = Records
           [[(''filename'', ''a.pdf''),
             (''hash'', ''0000000000000000000000000000000000000000000000000000000000000083''),
             (''processed_at'', ''2026-11-03T12:00:00.000001Z''),
             (''path'', ''processed_data/a.pdf'')],
            [(''filename'', ''a_20261103120000.pdf''),
             (''hash'', ''0000000000000000000000000000000000000000000000000000000000000084''),
             (''processed_at'', ''2026-11-03T12:00:00.000001Z''),
             (''path'', ''processed_data/a_20261103120000.pdf'')]],
         rag = Some \<lparr>vs_index = Some [(17, [(''text'', ''Rice needs water.'')]),
                                       (17, [(''text'', ''Rice needs water.'')])]\<rparr>,
         snapshot = Some [(17, [(''text'', ''Rice needs water.'')]),
                          (17, [(''text'', ''Rice needs water.'')])],
         calls = [NewEmbeddingPipeline, ChunkDocuments, EmbedChunks, NewRAGSearch,
                  AddEmbeddings, SaveVectorstore,
                  NewEmbeddingPipeline, ChunkDocuments, EmbedChunks,
                  AddEmbeddings, SaveVectorstore]\<rparr>)"
  by (subst upload_file_saved [of _ "\<lparr>filename = ''a.pdf'', stream = [65, 67]\<rparr>" "''a.pdf''"])
     (auto simp add: after_first_eq demo_defs demo_content_hash demo_digest_AC strip_demo_text splitext_a_pdf)


lemma after_second_eq:
  "after_second =
        \<lparr>files = [''processed_data/a.pdf'' \<mapsto> [65, 66],
                  ''processed_data/a_20261103120000.pdf'' \<mapsto> [65, 67]],
         manifest = Records
           [[(''filename'', ''a.pdf''),
             (''hash'', ''0000000000000000000000000000000000000000000000000000000000000083''),
             (''processed_at'', ''2026-11-03T12:00:00.000001Z''),
             (''path'', ''processed_data/a.pdf'')],
            [(''filename'', ''a_20261103120000.pdf''),
             (''hash'', ''0000000000000000000000000000000000000000000000000000000000000084''),
             (''processed_at'', ''2026-11-03T12:00:00.000001Z''),
             (''path'', ''processed_data/a_20261103120000.pdf'')]],
         rag = Some \<lparr>vs_index = Some [(17, [(''text'', ''Rice needs water.'')]),
                                       (17, [(''text'', ''Rice needs water.'')])]\<rparr>,
         snapshot = Some [(17, [(''text'', ''Rice needs water.'')]),
                          (17, [(''text'', ''Rice needs water.'')])],
         calls = [NewEmbeddingPipeline, ChunkDocuments, EmbedChunks, NewRAGSearch,
                  AddEmbeddings, SaveVectorstore,
                  NewEmbeddingPipeline, ChunkDocuments, EmbedChunks,
                  AddEmbeddings, SaveVectorstore]\<rparr>"
  by (simp add: after_second_def demo_second)

lemma demo_one_shot: "one_shot demo_hashlib content = demo_hexdigest content"
  by (simp add: one_shot_def demo_hashlib_def)

subsection \<open>Duplicate uploads\<close>

text \<open>
  Claim C1, as amended. An upload that the handler can save (it has a \<^verbatim>\<open>file\<close> part
  with a file name, and the sanitized name is storable) and whose SHA-256 content hash
  is the \<^verbatim>\<open>"hash"\<close> of a record already in the manifest is answered with status 200 and
  the message ``already processed'' alone; the state afterwards is the state before with
  nothing at the temporary path: the manifest, \<^verbatim>\<open>rag\<close>, the vector snapshot and the log
  of calls into the retrieval code are as they were, whatever the upload's file name.
  The hash is that of the whole content hashed at once; that the handler's chunked
  reading computes it rests on what \<^verbatim>\<open>hashlib\<close> promises.
\<close>

theorem upload_duplicate_is_noop:
  assumes "request_files ''file'' = Some file" and "filename file \<noteq> []"
    and "fname = secure_filename L (filename file)" and "storable fname"
    and "hashlib_contract (hashlib L)"
    and "rec \<in> set (load_processed_index s)"
    and "dict_get rec ''hash'' = Some (one_shot (hashlib L) (stream file))"
  shows "upload_file L env request_files s =
           ((200, MessageBody ''File already processed earlier. Ready to chat!''),
            s\<lparr>files := (files s)(os_path_join UPLOAD_FOLDER fname := None)\<rparr>)"
proof -
  from assms(5) have "content_hash (hashlib L) (stream file) = one_shot (hashlib L) (stream file)"
    by (rule content_hash_one_shot)
  with assms(6,7) have "hash_seen (load_processed_index s) (content_hash (hashlib L) (stream file))"
    unfolding hash_seen_iff by force
  with assms(1-4) show ?thesis
    by (simp add: upload_file_saved [of request_files "file" fname L])
qed

theorem upload_duplicate_is_noop_witness:
  "upload_file demo_libs demo_clock (demo_upload ''b.pdf'' [65, 66]) after_first =
     ((200, MessageBody ''File already processed earlier. Ready to chat!''), after_first)"
proof -
  have "upload_file demo_libs demo_clock (demo_upload ''b.pdf'' [65, 66]) after_first =
     ((200, MessageBody ''File already processed earlier. Ready to chat!''),
      after_first\<lparr>files := (files after_first)(os_path_join UPLOAD_FOLDER ''b.pdf'' := None)\<rparr>)"
    by (rule upload_duplicate_is_noop
          [of _ "\<lparr>filename = ''b.pdf'', stream = [65, 66]\<rparr>" _ _
              "[(''filename'', ''a.pdf''),
                (''hash'', ''0000000000000000000000000000000000000000000000000000000000000083''),
                (''processed_at'', ''2026-11-03T12:00:00.000001Z''),
                (''path'', ''processed_data/a.pdf'')]"])
       (simp_all add: after_first_eq demo_defs demo_one_shot demo_digest_AB demo_hashlib_contract)
  then show ?thesis
    by (simp add: after_first_eq demo_defs)
qed

text \<open>
  For every upload with such a content the statement does not hold; two inputs where it
  fails: the same bytes under the name \<^verbatim>\<open>/\<close>, which sanitizes to the empty string, so that
  \<^verbatim>\<open>file.save\<close> raises before any hash is computed; and the same bytes in a part with an
  empty file name, which the handler's guard answers with status 400.
\<close>

theorem upload_duplicate_counterexample:
  "hash_seen (load_processed_index after_first) (one_shot demo_hashlib [65, 66])
   \<and> upload_file demo_libs demo_clock (demo_upload ''/'' [65, 66]) after_first
       = ((500, Unhandled (OSError ''IsADirectoryError'')), after_first)
   \<and> upload_file demo_libs demo_clock (demo_upload [] [65, 66]) after_first
       = ((400, ErrorBody ''No selected file''), after_first)"
proof -
  have "hash_seen (load_processed_index after_first) (one_shot demo_hashlib [65, 66])"
    by (simp add: after_first_eq load_processed_index_def dict_get_def demo_one_shot
        demo_digest_AB)
  moreover have "upload_file demo_libs demo_clock (demo_upload ''/'' [65, 66]) after_first
       = ((500, Unhandled (OSError ''IsADirectoryError'')), after_first)"
    by (rule upload_file_empty_name [of _ "\<lparr>filename = ''/'', stream = [65, 66]\<rparr>"])
       (simp_all add: demo_upload_def demo_libs_def)
  moreover have "upload_file demo_libs demo_clock (demo_upload [] [65, 66]) after_first
       = ((400, ErrorBody ''No selected file''), after_first)"
    by (simp add: upload_file_def demo_upload_def)
  ultimately show ?thesis
    by simp
qed

subsection \<open>The manifest only grows, by records with new hashes\<close>

lemma unique_hashes_upload:
  assumes "unique_hashes (load_processed_index s)"
  shows "unique_hashes (load_processed_index (snd (upload_file L env request_files s)))"
proof -
  obtain resp s' where u: "upload_file L env request_files s = (resp, s')"
    by (cases "upload_file L env request_files s")
  from upload_file_cases [OF u] show ?thesis
  proof
    assume "\<exists>rec h. resp = (200, MessageFileBody ''File uploaded, processed, and stored successfully!'' rec)
              \<and> manifest s' = Records (load_processed_index s @ [rec])
              \<and> dict_get rec ''hash'' = Some h \<and> \<not> hash_seen (load_processed_index s) h"
    then obtain rec h where "manifest s' = Records (load_processed_index s @ [rec])"
      and "dict_get rec ''hash'' = Some h" and "\<not> hash_seen (load_processed_index s) h"
      by blast
    with assms u show ?thesis
      by (simp add: unique_hashes_def hash_seen_iff load_processed_index_def [of s'])
  next
    assume "(\<forall>m rec. resp \<noteq> (200, MessageFileBody m rec)) \<and> manifest s' = manifest s"
    with assms u show ?thesis
      by (simp add: load_processed_index_def)
  qed
qed

lemma list_processed_state [simp]: "snd (list_processed s) = s"
  by (simp add: list_processed_def Let_def)

lemma chat_manifest [simp]: "manifest (snd (chat L request_json s)) = manifest s"
proof -
  obtain r s1 where g: "get_rag L s = (r, s1)"
    by (cases "get_rag L s")
  with get_rag_frame [of L s] have "manifest s1 = manifest s"
    by simp
  with g show ?thesis
    by (simp add: chat_def Let_def log_call_def split: sum.splits)
qed

lemma load_processed_index_cong:
  "manifest s' = manifest s \<Longrightarrow> load_processed_index s' = load_processed_index s"
  by (simp add: load_processed_index_def)

text \<open>
  Claim C2. In every state the service reaches, no two records of the manifest have the
  same \<^verbatim>\<open>"hash"\<close>: the handler appends a record only after the scan found no record with
  the upload's hash.
\<close>

theorem manifest_hashes_unique:
  assumes "reachable L s"
  shows "unique_hashes (load_processed_index s)"
  using assms
proof (induction rule: reachable.induct)
  case (start s)
  then show ?case
    by (simp add: unique_hashes_def load_processed_index_def)
next
  case (upload s env request_files)
  then show ?case
    by (simp add: unique_hashes_upload)
next
  case (processed s)
  then show ?case
    by simp
next
  case (chat s request_json)
  then show ?case
    by (simp add: load_processed_index_cong [OF chat_manifest])
next
  case (restart s)
  then show ?case
    by (simp add: load_processed_index_def)
next
  case (damaged s)
  then show ?case
    by (simp add: load_processed_index_def unique_hashes_def)
qed

theorem manifest_hashes_unique_witness:
  "reachable demo_libs after_second
   \<and> load_processed_index after_second =
       [[(''filename'', ''a.pdf''),
         (''hash'', ''0000000000000000000000000000000000000000000000000000000000000083''),
         (''processed_at'', ''2026-11-03T12:00:00.000001Z''),
         (''path'', ''processed_data/a.pdf'')],
        [(''filename'', ''a_20261103120000.pdf''),
         (''hash'', ''0000000000000000000000000000000000000000000000000000000000000084''),
         (''processed_at'', ''2026-11-03T12:00:00.000001Z''),
         (''path'', ''processed_data/a_20261103120000.pdf'')]]
   \<and> unique_hashes (load_processed_index after_second)
   \<and> load_processed_index
        (snd (upload_file demo_libs demo_clock (demo_upload ''b.pdf'' [65, 66]) after_second))
       = load_processed_index after_second"
proof -
  have "reachable demo_libs fresh"
    by (rule reachable.start) (simp_all add: fresh_def)
  then have "reachable demo_libs after_first"
    unfolding after_first_def by (rule reachable.upload)
  then have r: "reachable demo_libs after_second"
    unfolding after_second_def by (rule reachable.upload)
  have "hash_seen (load_processed_index after_second) (content_hash demo_hashlib [65, 66])"
    by (simp add: after_second_eq load_processed_index_def dict_get_def demo_content_hash
        demo_digest_AB)
  then have "upload_file demo_libs demo_clock (demo_upload ''b.pdf'' [65, 66]) after_second
               = ((200, MessageBody ''File already processed earlier. Ready to chat!''),
                  after_second\<lparr>files := (files after_second)
                                 (os_path_join UPLOAD_FOLDER ''b.pdf'' := None)\<rparr>)"
    by (subst upload_file_saved [of _ "\<lparr>filename = ''b.pdf'', stream = [65, 66]\<rparr>" "''b.pdf''"])
       (simp_all add: demo_defs)
  with manifest_hashes_unique [OF r] r show ?thesis
    by (simp add: after_second_eq load_processed_index_def)
qed

text \<open>
  Claim C8. An upload answered with the new record in the \<^verbatim>\<open>file\<close> field has appended
  exactly that record to the manifest and left the records before it as they were; after
  any upload the old manifest is a prefix of the new one; \<^verbatim>\<open>/processed\<close> and
  \<^verbatim>\<open>/chat\<close> leave the manifest as it is.
\<close>

theorem manifest_append_only:
  "(upload_file L env request_files s = ((200, MessageFileBody m new_rec), s')
      \<longrightarrow> load_processed_index s' = load_processed_index s @ [new_rec])
   \<and> prefix (load_processed_index s)
        (load_processed_index (snd (upload_file L env request_files s)))
   \<and> load_processed_index (snd (list_processed s)) = load_processed_index s
   \<and> load_processed_index (snd (chat L request_json s)) = load_processed_index s"
proof -
  obtain resp s1 where u: "upload_file L env request_files s = (resp, s1)"
    by (cases "upload_file L env request_files s")
  have a: "upload_file L env request_files s = ((200, MessageFileBody m new_rec), s')
      \<longrightarrow> load_processed_index s' = load_processed_index s @ [new_rec]"
  proof
    assume ok: "upload_file L env request_files s = ((200, MessageFileBody m new_rec), s')"
    from upload_file_cases [OF ok] show "load_processed_index s' = load_processed_index s @ [new_rec]"
      by (auto simp: load_processed_index_def [of s'])
  qed
  have b: "prefix (load_processed_index s) (load_processed_index s1)"
    using upload_file_cases [OF u]
    by (auto simp: load_processed_index_def [of s1] load_processed_index_def [of s])
  from a b u show ?thesis
    by (simp add: load_processed_index_cong [OF chat_manifest])
qed

theorem manifest_append_only_witness:
  "load_processed_index after_first =
       [[(''filename'', ''a.pdf''),
         (''hash'', ''0000000000000000000000000000000000000000000000000000000000000083''),
         (''processed_at'', ''2026-11-03T12:00:00.000001Z''),
         (''path'', ''processed_data/a.pdf'')]]
   \<and> upload_file demo_libs demo_clock (demo_upload ''a.pdf'' [65, 67]) after_first
       = ((200, MessageFileBody ''File uploaded, processed, and stored successfully!''
               [(''filename'', ''a_20261103120000.pdf''),
                (''hash'', ''0000000000000000000000000000000000000000000000000000000000000084''),
                (''processed_at'', ''2026-11-03T12:00:00.000001Z''),
                (''path'', ''processed_data/a_20261103120000.pdf'')]), after_second)
   \<and> load_processed_index after_second =
       load_processed_index after_first @
         [[(''filename'', ''a_20261103120000.pdf''),
           (''hash'', ''0000000000000000000000000000000000000000000000000000000000000084''),
           (''processed_at'', ''2026-11-03T12:00:00.000001Z''),
           (''path'', ''processed_data/a_20261103120000.pdf'')]]
   \<and> prefix (load_processed_index after_first) (load_processed_index after_second)"
proof -
  have u: "upload_file demo_libs demo_clock (demo_upload ''a.pdf'' [65, 67]) after_first
          = ((200, MessageFileBody ''File uploaded, processed, and stored successfully!''
               [(''filename'', ''a_20261103120000.pdf''),
                (''hash'', ''0000000000000000000000000000000000000000000000000000000000000084''),
                (''processed_at'', ''2026-11-03T12:00:00.000001Z''),
                (''path'', ''processed_data/a_20261103120000.pdf'')]), after_second)"
    by (simp add: demo_second after_second_eq)
  have "load_processed_index after_first =
       [[(''filename'', ''a.pdf''),
         (''hash'', ''0000000000000000000000000000000000000000000000000000000000000083''),
         (''processed_at'', ''2026-11-03T12:00:00.000001Z''),
         (''path'', ''processed_data/a.pdf'')]]"
    by (simp add: after_first_eq load_processed_index_def)
  with u manifest_append_only [of demo_libs demo_clock "demo_upload ''a.pdf'' [65, 67]" after_first
        "''File uploaded, processed, and stored successfully!''" _ after_second]
  show ?thesis
    by (simp add: after_second_def)
qed

subsection \<open>Uploads without text\<close>

text \<open>
  Claim C4. An upload that the handler has saved (its sanitized name is storable), whose
  SHA-256 content hash is not in the manifest and from which \<^verbatim>\<open>extract_text_from_pdf\<close>
  gets the empty string is answered with status 500 and an error message; the temporary
  file is gone and nothing else has changed, so the manifest and the answer of
  \<^verbatim>\<open>/processed\<close> are as before.
\<close>

theorem upload_without_text:
  assumes "request_files ''file'' = Some file" and "filename file \<noteq> []"
    and "fname = secure_filename L (filename file)" and "storable fname"
    and "temp_path = os_path_join UPLOAD_FOLDER fname"
    and "hashlib_contract (hashlib L)"
    and "\<not> hash_seen (load_processed_index s) (one_shot (hashlib L) (stream file))"
    and "extract_text_from_pdf (PdfReader L) ((files s)(temp_path \<mapsto> stream file)) temp_path
           = Inr []"
  shows "upload_file L env request_files s =
           ((500, ErrorBody ''Failed to extract text from PDF''),
            s\<lparr>files := (files s)(temp_path := None)\<rparr>)
         \<and> manifest (snd (upload_file L env request_files s)) = manifest s
         \<and> fst (list_processed (snd (upload_file L env request_files s)))
             = fst (list_processed s)"
proof -
  from assms(6) have "content_hash (hashlib L) (stream file) = one_shot (hashlib L) (stream file)"
    by (rule content_hash_one_shot)
  with assms have "upload_file L env request_files s =
           ((500, ErrorBody ''Failed to extract text from PDF''),
            s\<lparr>files := (files s)(temp_path := None)\<rparr>)"
    by (simp add: upload_file_saved [of request_files "file" fname L] ingest_new_def
        os_remove_quiet_def)
  then show ?thesis
    by (simp add: list_processed_def)
qed

lemma demo_digest_scan: "demo_hexdigest [0, 66] = ''0000000000000000000000000000000000000000000000000000000000000042''"
  by code_simp

lemma strip_empty: "str_strip [] = []"
  by (simp add: str_strip_def)

theorem upload_without_text_witness:
  "upload_file demo_libs demo_clock (demo_upload ''scan.pdf'' [0, 66]) after_first =
     ((500, ErrorBody ''Failed to extract text from PDF''), after_first)
   \<and> fst (list_processed after_first) =
       (200, ProcessedBody [[(''filename'', ''a.pdf''),
                (''hash'', ''0000000000000000000000000000000000000000000000000000000000000083''),
                (''processed_at'', ''2026-11-03T12:00:00.000001Z''),
                (''path'', ''processed_data/a.pdf'')]])"
proof -
  have "upload_file demo_libs demo_clock (demo_upload ''scan.pdf'' [0, 66]) after_first =
           ((500, ErrorBody ''Failed to extract text from PDF''),
            after_first\<lparr>files := (files after_first)(''data/scan.pdf'' := None)\<rparr>)
         \<and> manifest (snd (upload_file demo_libs demo_clock (demo_upload ''scan.pdf'' [0, 66]) after_first))
             = manifest after_first
         \<and> fst (list_processed (snd (upload_file demo_libs demo_clock (demo_upload ''scan.pdf'' [0, 66]) after_first)))
             = fst (list_processed after_first)"
    by (rule upload_without_text [of _ "\<lparr>filename = ''scan.pdf'', stream = [0, 66]\<rparr>" "''scan.pdf''"])
       (simp_all add: after_first_eq demo_defs demo_one_shot demo_digest_scan strip_empty
          page_text_def demo_hashlib_contract)
  then show ?thesis
    by (simp add: after_first_eq demo_defs list_processed_def sorted_reverse_def)
qed

subsection \<open>Text extraction\<close>


lemma yielded_pages_of [simp]: "yielded (pages_of ps) = ps"
  by (induction ps) simp_all






subsection \<open>A manifest that does not parse\<close>

lemma get_rag_manifest_upd:
  "get_rag L (s\<lparr>manifest := m\<rparr>) = (fst (get_rag L s), (snd (get_rag L s))\<lparr>manifest := m\<rparr>)"
  by (simp add: get_rag_def log_call_def split: option.splits sum.splits)

lemma add_and_save_manifest_upd:
  "add_and_save r arr chunks (s\<lparr>manifest := m\<rparr>) = (add_and_save r arr chunks s)\<lparr>manifest := m\<rparr>"
  by (simp add: add_and_save_def Let_def vectorstore_save_def log_call_def)

lemma log_call_manifest_upd:
  "log_call c (s\<lparr>manifest := m\<rparr>) = (log_call c s)\<lparr>manifest := m\<rparr>"
  by (simp add: log_call_def)

lemma embed_and_index_manifest_upd:
  "embed_and_index L pdf_text fname (s\<lparr>manifest := m\<rparr>)
     = (fst (embed_and_index L pdf_text fname s),
        (snd (embed_and_index L pdf_text fname s))\<lparr>manifest := m\<rparr>)"
  unfolding embed_and_index_def Let_def
  by (simp add: log_call_manifest_upd get_rag_manifest_upd add_and_save_manifest_upd
      split: sum.splits prod.splits)

lemma as_loaded_manifest_eq:
  "manifest s' = manifest s \<Longrightarrow> s'\<lparr>manifest := Records (load_processed_index s)\<rparr> = as_loaded s'"
  by (simp add: as_loaded_def load_processed_index_def)

lemma store_file_as_loaded:
  "store_file env fname temp_path h idx (s\<lparr>manifest := m\<rparr>)
     = (fst (store_file env fname temp_path h idx s),
        case os_rename temp_path (snd (destination env fname s)) s of
          Inl e \<Rightarrow> s\<lparr>manifest := m\<rparr>
        | Inr s1 \<Rightarrow> snd (store_file env fname temp_path h idx s))"
  by (simp add: store_file_def destination_def os_path_exists_def os_rename_def
      save_processed_index_def Let_def split: prod.splits option.splits)


lemma store_file_loaded:
  assumes "manifest s1 = manifest s"
  shows "store_file env fname temp_path h idx (s1\<lparr>manifest := Records (load_processed_index s)\<rparr>)
           = (fst (store_file env fname temp_path h idx s1),
              as_loaded (snd (store_file env fname temp_path h idx s1)))"
  using assms
  by (simp add: store_file_def destination_def os_path_exists_def os_rename_def
      save_processed_index_def as_loaded_def load_processed_index_def Let_def
      split: prod.splits option.splits)

lemma os_remove_quiet_loaded:
  "os_remove_quiet p (as_loaded s) = as_loaded (os_remove_quiet p s)"
  by (simp add: os_remove_quiet_def as_loaded_def load_processed_index_def)

lemma files_as_loaded [simp]: "files (as_loaded s) = files s"
  by (simp add: as_loaded_def)

lemma load_as_loaded [simp]: "load_processed_index (as_loaded s) = load_processed_index s"
  by (simp add: as_loaded_def load_processed_index_def)

lemma ingest_new_loaded:
  "ingest_new L env fname temp_path h idx (as_loaded s)
     = (fst (ingest_new L env fname temp_path h idx s),
        as_loaded (snd (ingest_new L env fname temp_path h idx s)))"
proof (cases "extract_text_from_pdf (PdfReader L) (files s) temp_path")
  case (Inl e)
  then show ?thesis
    by (simp add: ingest_new_def)
next
  case (Inr pdf_text)
  show ?thesis
  proof (cases "pdf_text = []")
    case True
    with Inr show ?thesis
      by (simp add: ingest_new_def os_remove_quiet_loaded)
  next
    case False
    obtain r1 s1 where e: "embed_and_index L pdf_text fname s = (r1, s1)"
      by (cases "embed_and_index L pdf_text fname s")
    then have m: "manifest s1 = manifest s"
      using embed_and_index_frame by blast
    have e': "embed_and_index L pdf_text fname (as_loaded s)
                = (r1, s1\<lparr>manifest := Records (load_processed_index s)\<rparr>)"
      using e by (simp add: as_loaded_def embed_and_index_manifest_upd)
    show ?thesis
    proof (cases r1)
      case (Inl e1)
      with Inr False e e' m show ?thesis
        by (simp add: ingest_new_def as_loaded_manifest_eq)
    next
      case r1: (Inr u)
      with Inr False e e' show ?thesis
        by (simp add: ingest_new_def store_file_loaded [OF m])
    qed
  qed
qed

lemma file_save_loaded:
  "file_save upl path (as_loaded s) = map_sum id as_loaded (file_save upl path s)"
  by (simp add: file_save_def as_loaded_def load_processed_index_def split: option.splits)

lemma upload_file_loaded:
  "upload_file L env request_files (as_loaded s)
     = (fst (upload_file L env request_files s),
        as_loaded (snd (upload_file L env request_files s)))"
proof (cases "request_files ''file''")
  case None
  then show ?thesis
    by (simp add: upload_file_def)
next
  case (Some upl)
  define temp_path where "temp_path = os_path_join UPLOAD_FOLDER (secure_filename L (filename upl))"
  show ?thesis
  proof (cases "file_save upl temp_path s")
    case (Inl e)
    with Some show ?thesis
      by (simp add: upload_file_def temp_path_def file_save_loaded Let_def)
  next
    case (Inr s1)
    then have l: "load_processed_index s1 = load_processed_index s"
      by (auto simp: file_save_def split: option.splits)
    from Some Inr l show ?thesis
      by (simp add: upload_file_def temp_path_def file_save_loaded Let_def
          os_remove_quiet_loaded ingest_new_loaded split: sum.splits)
  qed
qed

text \<open>
  Claim C10. When the manifest file does not parse, \<^verbatim>\<open>load_processed_index\<close> returns
  the empty list; \<^verbatim>\<open>/processed\<close> answers with an empty listing, and an upload is
  answered as it is when the manifest holds \<^verbatim>\<open>[]\<close>, with the same state afterwards up to
  what the manifest file reads as.
\<close>

theorem unparseable_manifest_reads_empty:
  assumes "manifest s = Unparseable"
  shows "load_processed_index s = []
         \<and> list_processed s = ((200, ProcessedBody []), s)
         \<and> upload_file L env request_files (s\<lparr>manifest := Records []\<rparr>)
             = (fst (upload_file L env request_files s),
                as_loaded (snd (upload_file L env request_files s)))"
proof -
  from assms have l: "load_processed_index s = []"
    by (simp add: load_processed_index_def)
  then have "as_loaded s = s\<lparr>manifest := Records []\<rparr>"
    by (simp add: as_loaded_def)
  with upload_file_loaded [of L env request_files s] l show ?thesis
    by (simp add: list_processed_def sorted_reverse_def)
qed

theorem unparseable_manifest_reads_empty_witness:
  "load_processed_index (after_first\<lparr>manifest := Unparseable\<rparr>) = []
   \<and> list_processed (after_first\<lparr>manifest := Unparseable\<rparr>)
       = ((200, ProcessedBody []), after_first\<lparr>manifest := Unparseable\<rparr>)
   \<and> fst (upload_file demo_libs demo_clock (demo_upload ''b.pdf'' [65, 66])
            (after_first\<lparr>manifest := Unparseable\<rparr>))
       = (200, MessageFileBody ''File uploaded, processed, and stored successfully!''
               [(''filename'', ''b.pdf''),
                (''hash'', ''0000000000000000000000000000000000000000000000000000000000000083''),
                (''processed_at'', ''2026-11-03T12:00:00.000001Z''),
                (''path'', ''processed_data/b.pdf'')])"
proof -
  have "fst (upload_file demo_libs demo_clock (demo_upload ''b.pdf'' [65, 66])
            (after_first\<lparr>manifest := Records []\<rparr>))
       = (200, MessageFileBody ''File uploaded, processed, and stored successfully!''
               [(''filename'', ''b.pdf''),
                (''hash'', ''0000000000000000000000000000000000000000000000000000000000000083''),
                (''processed_at'', ''2026-11-03T12:00:00.000001Z''),
                (''path'', ''processed_data/b.pdf'')])"
    by (subst upload_file_saved [of _ "\<lparr>filename = ''b.pdf'', stream = [65, 66]\<rparr>" "''b.pdf''"])
       (simp_all add: after_first_eq demo_defs demo_content_hash demo_digest_AB strip_demo_text page_text_def)
  with unparseable_manifest_reads_empty
         [of "after_first\<lparr>manifest := Unparseable\<rparr>" demo_libs demo_clock
             "demo_upload ''b.pdf'' [65, 66]"]
  show ?thesis
    by simp
qed


subsection \<open>The listing\<close>

text \<open>
  Claim C3. \<^verbatim>\<open>GET /processed\<close> answers with status 200 and a list holding exactly the
  records of the manifest, as many as there are, in descending order of
  \<^verbatim>\<open>processed_at\<close>; the state is unchanged.
\<close>

theorem list_processed_sorted:
  "\<exists>ys. list_processed s = ((200, ProcessedBody ys), s)
         \<and> mset ys = mset (load_processed_index s)
         \<and> length ys = length (load_processed_index s)
         \<and> sorted_wrt (\<lambda>a b. processed_at_key b \<le> processed_at_key a) ys"
proof -
  let ?xs = "load_processed_index s"
  let ?ys = "sorted_reverse processed_at_key ?xs"
  have "sorted (map processed_at_key (sort_key processed_at_key (rev ?xs)))"
    by (rule sorted_sort_key)
  then have "sorted_wrt (\<lambda>a b. processed_at_key b \<le> processed_at_key a) ?ys"
    by (simp add: sorted_reverse_def sorted_wrt_rev sorted_map)
  moreover have "mset ?ys = mset ?xs"
    by (simp add: sorted_reverse_def)
  moreover from this have "length ?ys = length ?xs"
    by (rule mset_eq_length)
  ultimately show ?thesis
    by (simp add: list_processed_def Let_def)
qed

lemma three_records_listing: "fst (list_processed three_records) =
     (200, ProcessedBody
        [demo_rec ''b.pdf'' ''02'' ''2026-11-03T09:30:00.000000Z'',
         demo_rec ''c.pdf'' ''03'' ''2026-11-02T10:00:00.000000Z'',
         demo_rec ''a.pdf'' ''01'' ''2026-11-01T08:00:00.000000Z''])"
  by code_simp

theorem list_processed_sorted_witness:
  "list_processed three_records =
     ((200, ProcessedBody
        [demo_rec ''b.pdf'' ''02'' ''2026-11-03T09:30:00.000000Z'',
         demo_rec ''c.pdf'' ''03'' ''2026-11-02T10:00:00.000000Z'',
         demo_rec ''a.pdf'' ''01'' ''2026-11-01T08:00:00.000000Z'']), three_records)
   \<and> length (load_processed_index three_records) = 3"
proof -
  obtain ys where "list_processed three_records = ((200, ProcessedBody ys), three_records)"
    and "length ys = length (load_processed_index three_records)"
    using list_processed_sorted [of three_records] by blast
  with three_records_listing show ?thesis
    by simp
qed


subsection \<open>Empty chat messages\<close>

lemma get_rag_ready:
  assumes "rag s = Some r0 \<or> (rag s = None \<and> RAGSearch L (snapshot s) = Inr r)"
  shows "\<exists>r'. get_rag L s =
           (Inr r', if rag s = None then (log_call NewRAGSearch s)\<lparr>rag := Some r\<rparr> else s)"
  using assms by (auto simp: get_rag_def)

text \<open>When \<^verbatim>\<open>rag\<close> has to be built and \<^verbatim>\<open>RAGSearch()\<close> raises, that is the answer.\<close>

lemma chat_construction_raises:
  assumes "rag s = None" and "RAGSearch L (snapshot s) = Inl e"
  shows "chat L request_json s = (server_error e, log_call NewRAGSearch s)"
  using assms by (simp add: chat_def get_rag_def)

text \<open>
  Claim C5, as amended. A \<^verbatim>\<open>POST /chat\<close> whose message is empty (missing, or any
  value Python counts as false) is answered with status 400 and
  \<^verbatim>\<open>search_and_summarize\<close> is not called, provided \<^verbatim>\<open>rag\<close> is built already or
  \<^verbatim>\<open>RAGSearch()\<close> does not raise. The handler fetches \<^verbatim>\<open>rag\<close> before it looks at the
  message: when \<^verbatim>\<open>rag\<close> is not built yet, that builds it, the only call into the
  retrieval code and the only change of the state.
\<close>

theorem chat_empty_message:
  assumes "request_json = Inr j" and "get_message j = Inr user_message"
    and "\<not> truthy user_message"
    and "rag s = Some r0 \<or> (rag s = None \<and> RAGSearch L (snapshot s) = Inr r)"
  shows "chat L request_json s =
           ((400, ErrorBody ''Message cannot be empty''),
            if rag s = None then s\<lparr>rag := Some r, calls := calls s @ [NewRAGSearch]\<rparr> else s)"
proof -
  from get_rag_ready [OF assms(4)] obtain r' where
    "get_rag L s = (Inr r', if rag s = None then (log_call NewRAGSearch s)\<lparr>rag := Some r\<rparr> else s)"
    by blast
  with assms(1-3) show ?thesis
    by (simp add: chat_def log_call_def)
qed

theorem chat_empty_message_witness:
  "chat demo_libs (Inr (JObj [(''message'', JStr [])])) fresh =
     ((400, ErrorBody ''Message cannot be empty''),
      fresh\<lparr>rag := Some \<lparr>vs_index = None\<rparr>, calls := [NewRAGSearch]\<rparr>)
   \<and> chat demo_libs (Inr (JObj [])) after_first =
     ((400, ErrorBody ''Message cannot be empty''), after_first)"
proof -
  have "chat demo_libs (Inr (JObj [(''message'', JStr [])])) fresh =
     ((400, ErrorBody ''Message cannot be empty''),
      if rag fresh = None then fresh\<lparr>rag := Some \<lparr>vs_index = None\<rparr>, calls := calls fresh @ [NewRAGSearch]\<rparr> else fresh)"
    by (rule chat_empty_message [of _ "JObj [(''message'', JStr [])]" "JStr []"])
       (simp_all add: get_message_def fresh_def demo_libs_def)
  moreover have "chat demo_libs (Inr (JObj [])) after_first =
     ((400, ErrorBody ''Message cannot be empty''),
      if rag after_first = None
      then after_first\<lparr>rag := Some \<lparr>vs_index = None\<rparr>, calls := calls after_first @ [NewRAGSearch]\<rparr>
      else after_first)"
    by (rule chat_empty_message
          [of _ "JObj []" "JStr []" _ "\<lparr>vs_index = Some [(17, [(''text'', ''Rice needs water.'')])]\<rparr>"])
       (simp_all add: get_message_def after_first_eq)
  ultimately show ?thesis
    by (simp add: fresh_def after_first_eq)
qed

text \<open>
  A 400 for every empty message, and no call into the retrieval code, does not hold on
  a process that has not built \<^verbatim>\<open>rag\<close> yet: the handler
  calls \<^verbatim>\<open>RAGSearch()\<close> first, and when that raises the answer is a 500.
\<close>

theorem chat_empty_message_counterexample:
  "chat demo_libs_down (Inr (JObj [(''message'', JStr [])])) fresh
     = ((500, Unhandled (Exception ''vector store unreadable'')),
        fresh\<lparr>calls := [NewRAGSearch]\<rparr>)
   \<and> calls (snd (chat demo_libs (Inr (JObj [(''message'', JStr [])])) fresh)) = [NewRAGSearch]"
proof -
  have "chat demo_libs_down (Inr (JObj [(''message'', JStr [])])) fresh
     = (server_error (Exception ''vector store unreadable''), log_call NewRAGSearch fresh)"
    by (rule chat_construction_raises) (simp_all add: fresh_def demo_libs_down_def demo_libs_def)
  moreover have "calls (snd (chat demo_libs (Inr (JObj [(''message'', JStr [])])) fresh))
                   = [NewRAGSearch]"
    by (simp add: chat_def get_rag_def get_message_def log_call_def fresh_def demo_libs_def)
  ultimately show ?thesis
    by (simp add: server_error_def log_call_def fresh_def)
qed

subsection \<open>Colliding file names\<close>

lemma os_path_splitext_append:
  "os_path_splitext p = (base, ext) \<Longrightarrow> base @ ext = p"
  by (auto simp: os_path_splitext_def Let_def split: if_splits)

lemma os_path_join_processed_inject:
  assumes "os_path_join PROCESSED_FOLDER x = os_path_join PROCESSED_FOLDER y"
  shows "x = y"
proof -
  have j: "os_path_join PROCESSED_FOLDER z =
             (if z \<noteq> [] \<and> hd z = CHR ''/'' then z else ''processed_data/'' @ z)" for z
    by (simp add: os_path_join_def PROCESSED_FOLDER_def)
  show ?thesis
  proof (cases "x \<noteq> [] \<and> hd x = CHR ''/''")
    case True
    with assms show ?thesis
      by (auto simp: j split: if_splits)
  next
    case False
    with assms show ?thesis
      by (auto simp: j split: if_splits)
  qed
qed

lemma destination_avoids_existing:
  assumes "os_path_exists s (os_path_join PROCESSED_FOLDER fname)"
  shows "snd (destination env fname s) \<noteq> os_path_join PROCESSED_FOLDER fname"
proof -
  obtain base ext where sp: "os_path_splitext fname = (base, ext)"
    by (cases "os_path_splitext fname")
  then have f: "base @ ext = fname"
    by (rule os_path_splitext_append)
  have "base @ ''_'' @ strftime_now env @ ext \<noteq> fname"
  proof
    assume "base @ ''_'' @ strftime_now env @ ext = fname"
    then have "length (base @ ''_'' @ strftime_now env @ ext) = length (base @ ext)"
      using f by simp
    then show False by simp
  qed
  then have "os_path_join PROCESSED_FOLDER (base @ ''_'' @ strftime_now env @ ext)
               \<noteq> os_path_join PROCESSED_FOLDER fname"
    using os_path_join_processed_inject by blast
  with assms sp show ?thesis
    by (simp add: destination_def Let_def)
qed

lemma demo_digest_AD: "demo_hexdigest [65, 68] = ''0000000000000000000000000000000000000000000000000000000000000085''"
  by code_simp

lemma demo_third:
  "upload_file demo_libs demo_clock_later (demo_upload ''a.pdf'' [65, 68]) after_second
     = ((200, MessageFileBody ''File uploaded, processed, and stored successfully!''
               [(''filename'', ''a_20261103120000.pdf''),
                (''hash'', ''0000000000000000000000000000000000000000000000000000000000000085''),
                (''processed_at'', ''2026-11-03T12:00:00.650000Z''),
                (''path'', ''processed_data/a_20261103120000.pdf'')]),
        after_second
         \<lparr>files := [''processed_data/a.pdf'' \<mapsto> [65, 66],
                   ''processed_data/a_20261103120000.pdf'' \<mapsto> [65, 68]],
          manifest := Records (load_processed_index after_second @
            [[(''filename'', ''a_20261103120000.pdf''),
              (''hash'', ''0000000000000000000000000000000000000000000000000000000000000085''),
              (''processed_at'', ''2026-11-03T12:00:00.650000Z''),
              (''path'', ''processed_data/a_20261103120000.pdf'')]]),
          rag := Some \<lparr>vs_index = Some [(17, [(''text'', ''Rice needs water.'')]),
                                       (17, [(''text'', ''Rice needs water.'')]),
                                       (17, [(''text'', ''Rice needs water.'')])]\<rparr>,
          snapshot := Some [(17, [(''text'', ''Rice needs water.'')]),
                          (17, [(''text'', ''Rice needs water.'')]),
                          (17, [(''text'', ''Rice needs water.'')])],
          calls := calls after_second @ [NewEmbeddingPipeline, ChunkDocuments, EmbedChunks,
                  AddEmbeddings, SaveVectorstore]\<rparr>)"
  by (subst upload_file_saved [of _ "\<lparr>filename = ''a.pdf'', stream = [65, 68]\<rparr>" "''a.pdf''"])
     (auto simp add: after_second_eq demo_defs demo_clock_later_def demo_content_hash demo_digest_AD strip_demo_text splitext_a_pdf)

text \<open>
  Claim C6, at an input where it fails. After \<^verbatim>\<open>a.pdf\<close> is stored, two uploads of
  different bytes under the name \<^verbatim>\<open>a.pdf\<close> are handled within one second. Both are
  answered with status 200 and the same path \<^verbatim>\<open>processed_data/a_20261103120000.pdf\<close>;
  the later one replaces the earlier one's file there, whose bytes are then nowhere on
  disk, while the manifest lists three records.
\<close>

theorem same_second_collision_overwrites:
  "fst (upload_file demo_libs demo_clock (demo_upload ''a.pdf'' [65, 67]) after_first)
     = (200, MessageFileBody ''File uploaded, processed, and stored successfully!''
               [(''filename'', ''a_20261103120000.pdf''),
                (''hash'', ''0000000000000000000000000000000000000000000000000000000000000084''),
                (''processed_at'', ''2026-11-03T12:00:00.000001Z''),
                (''path'', ''processed_data/a_20261103120000.pdf'')])
   \<and> fst (upload_file demo_libs demo_clock_later (demo_upload ''a.pdf'' [65, 68]) after_second)
     = (200, MessageFileBody ''File uploaded, processed, and stored successfully!''
               [(''filename'', ''a_20261103120000.pdf''),
                (''hash'', ''0000000000000000000000000000000000000000000000000000000000000085''),
                (''processed_at'', ''2026-11-03T12:00:00.650000Z''),
                (''path'', ''processed_data/a_20261103120000.pdf'')])
   \<and> files after_second ''processed_data/a_20261103120000.pdf'' = Some [65, 67]
   \<and> files after_third ''processed_data/a_20261103120000.pdf'' = Some [65, 68]
   \<and> (\<forall>p. files after_third p \<noteq> Some [65, 67])
   \<and> length (load_processed_index after_third) = 3"
  by (simp add: demo_second demo_third after_third_def)
     (simp add: after_second_eq load_processed_index_def)

end
